theory Spec2Isabelle
  imports Complex_Main "HOL-Library.Word"
begin

unbundle bit_operations_syntax

section \<open>WAV format constants and the packed header (namespace wav)\<close>

type_synonym byte = "8 word"
type_synonym int16 = "16 word"
type_synonym uint16 = "16 word"
type_synonym uint32 = "32 word"
type_synonym size_t = "64 word"

text \<open>\<open>std::array<char, 4>\<close>: exactly four bytes.\<close>

type_synonym char4 = "byte \<times> byte \<times> byte \<times> byte"

definition SAMPLE_RATE :: uint32 where "SAMPLE_RATE = 44100"
definition BIT_DEPTH :: uint16 where "BIT_DEPTH = 16"
definition NUM_CHANNELS :: uint16 where "NUM_CHANNELS = 1"
definition AUDIO_FORMAT :: uint16 where "AUDIO_FORMAT = 1"
definition FMT_CHUNK_SIZE :: uint32 where "FMT_CHUNK_SIZE = 16"
definition HEADER_SIZE :: uint32 where "HEADER_SIZE = 44"

text \<open>
  \<open>struct Header\<close>, declared under \<open>#pragma pack(push, 1)\<close>: thirteen fields, no padding,
  and no default member initialisers.
\<close>

record Header =
  riffHeader :: char4
  chunkSize :: uint32
  waveHeader :: char4
  fmtHeader :: char4
  subchunk1Size :: uint32
  audioFormat :: uint16
  numChannels :: uint16
  sampleRate :: uint32
  byteRate :: uint32
  blockAlign :: uint16
  bitsPerSample :: uint16
  dataHeader :: char4
  dataSize :: uint32

text \<open>
  The object representation that \<open>reinterpret_cast<const char*>(&header)\<close> exposes: the
  fields in declaration order, packed, each integer in the byte order of the machine.
  The byte order is little-endian (the x86-64 target the source names).
\<close>

definition bytes_of_char4 :: "char4 \<Rightarrow> byte list" where
  "bytes_of_char4 c = (case c of (a, b, c, d) \<Rightarrow> [a, b, c, d])"

definition bytes_of_u16 :: "16 word \<Rightarrow> byte list" where
  "bytes_of_u16 w = [ucast w, ucast (drop_bit 8 w)]"

definition bytes_of_u32 :: "uint32 \<Rightarrow> byte list" where
  "bytes_of_u32 w = [ucast w, ucast (drop_bit 8 w), ucast (drop_bit 16 w), ucast (drop_bit 24 w)]"

definition bytes_of_Header :: "Header \<Rightarrow> byte list" where
  "bytes_of_Header h =
     bytes_of_char4 (riffHeader h) @ bytes_of_u32 (chunkSize h) @
     bytes_of_char4 (waveHeader h) @ bytes_of_char4 (fmtHeader h) @
     bytes_of_u32 (subchunk1Size h) @ bytes_of_u16 (audioFormat h) @
     bytes_of_u16 (numChannels h) @ bytes_of_u32 (sampleRate h) @
     bytes_of_u32 (byteRate h) @ bytes_of_u16 (blockAlign h) @
     bytes_of_u16 (bitsPerSample h) @ bytes_of_char4 (dataHeader h) @
     bytes_of_u32 (dataSize h)"

text \<open>ASCII codes of a four-character tag.\<close>

definition tag :: "string \<Rightarrow> byte list" where
  "tag s = map of_char s"

section \<open>Floating-point arithmetic\<close>

text \<open>
  A finite \<open>float\<close> or \<open>double\<close> is modelled by the real number it denotes. Every
  single-precision operation of the source is the exact operation followed by the rounding
  of the machine, \<open>round32\<close>; \<open>sinf\<close> is the single-precision \<open>std::sin\<close> of the C
  library. Both are parameters of the model. The theorems on the oscillator use only the
  properties collected in \<open>rounds_to_grid\<close>; the rounding of IEEE 754 binary32, defined
  below, has them, and so has exact arithmetic.
\<close>

record fpu =
  round32 :: "real \<Rightarrow> real"
  sinf :: "real \<Rightarrow> real"

text \<open>
  Rounding is monotone, and it leaves every multiple of 1/4 of magnitude at most \<open>2^18\<close>
  unchanged (such a number is \<open>k * 2^-2\<close> with \<open>|k| \<le> 2^20 < 2^24\<close>, so it is a binary32
  value).
\<close>

definition rounds_to_grid :: "(real \<Rightarrow> real) \<Rightarrow> bool" where
  "rounds_to_grid rnd \<longleftrightarrow>
     (\<forall>x y. x \<le> y \<longrightarrow> rnd x \<le> rnd y) \<and>
     (\<forall>k::int. \<bar>k\<bar> \<le> 2 ^ 20 \<longrightarrow> rnd (of_int k / 4) = of_int k / 4)"

text \<open>Exact arithmetic, the idealised machine: no rounding and the mathematical sine.\<close>

definition exact :: fpu where
  "exact = \<lparr>round32 = (\<lambda>x. x), sinf = sin\<rparr>"

subsection \<open>IEEE 754 binary32, round to nearest, ties to even\<close>

text \<open>
  The rounding of an x86-64 machine in its default mode. A positive magnitude \<open>m\<close> lies in
  the binade \<open>[2^e, 2^(e+1))\<close> with \<open>e = \<lfloor>log\<^sub>2 m\<rfloor>\<close>, or below \<open>2^-126\<close> among the
  subnormal numbers, where \<open>e\<close> is held at -126; the binary32 values of the binade are the
  multiples of \<open>2^(e-23)\<close>, and \<open>m\<close> goes to the nearest of them, to the one with an even
  multiplier when it lies half way. Negative numbers round as their magnitudes do.
  Magnitudes that round beyond the largest finite binary32 value (overflow to infinity)
  are outside the model.
\<close>

definition round_half_even :: "real \<Rightarrow> int" where
  "round_half_even y =
     (let f = \<lfloor>y\<rfloor>
      in if y - of_int f < 1 / 2 then f
         else if 1 / 2 < y - of_int f then f + 1
         else if even f then f else f + 1)"

definition binade :: "real \<Rightarrow> int" where
  "binade m = max \<lfloor>log 2 m\<rfloor> (- 126)"

definition ulp32 :: "real \<Rightarrow> real" where
  "ulp32 m = 2 powi (binade m - 23)"

definition round_magnitude :: "real \<Rightarrow> real" where
  "round_magnitude m = (if m = 0 then 0 else of_int (round_half_even (m / ulp32 m)) * ulp32 m)"

definition float32_round :: "real \<Rightarrow> real" where
  "float32_round x = (if x < 0 then - round_magnitude (- x) else round_magnitude x)"

text \<open>
  The machine with this rounding and a correctly rounded \<open>sinf\<close>. (The lemmas on the
  generation loop ask of \<open>sinf\<close> only that its values lie in \<open>[-1, 1]\<close>.)
\<close>

definition ieee32 :: fpu where
  "ieee32 = \<lparr>round32 = float32_round, sinf = (\<lambda>x. float32_round (sin x))\<rparr>"

text \<open>
  \<open>M_PI\<close> of \<open><cmath>\<close> is the \<open>double\<close> nearest to \<open>\<pi>\<close>, that is
  \<open>0x1.921FB54442D18p+1 = 884279719003555 / 2^48\<close>.
\<close>

definition M_PI :: real where
  "M_PI = 884279719003555 / 2 ^ 48"

section \<open>SineOscillator\<close>

record SineOscillator =
  frequency :: real
  amplitude :: real
  angle :: real
  angleStep :: real

text \<open>\<open>static constexpr float TWO_PI = 2.0f * static_cast<float>(M_PI)\<close>\<close>

definition TWO_PI :: "fpu \<Rightarrow> real" where
  "TWO_PI fp = round32 fp (2 * round32 fp M_PI)"

text \<open>
  The constructor; \<open>angle\<close> takes its default member initialiser \<open>0.0f\<close>, and
  \<open>TWO_PI * freq / wav::SAMPLE_RATE\<close> is a single-precision product followed by a
  single-precision quotient (44100 converts to \<open>float\<close> exactly).
\<close>

definition SineOscillator_ctor :: "fpu \<Rightarrow> real \<Rightarrow> real \<Rightarrow> SineOscillator" where
  "SineOscillator_ctor fp freq amp =
     \<lparr>frequency = freq, amplitude = amp, angle = 0,
      angleStep = round32 fp (round32 fp (TWO_PI fp * freq) / real (unat SAMPLE_RATE))\<rparr>"

text \<open>\<open>process\<close> returns the sample and the oscillator with its phase advanced.\<close>

definition process :: "fpu \<Rightarrow> SineOscillator \<Rightarrow> real \<times> SineOscillator" where
  "process fp osc =
     (let sample = round32 fp (amplitude osc * sinf fp (angle osc));
          a = round32 fp (angle osc + angleStep osc);
          a = (if a \<ge> TWO_PI fp then round32 fp (a - TWO_PI fp) else a)
      in (sample, osc\<lparr>angle := a\<rparr>))"

text \<open>The oscillator after \<open>n\<close> calls of \<open>process\<close>.\<close>

fun pulls :: "fpu \<Rightarrow> nat \<Rightarrow> SineOscillator \<Rightarrow> SineOscillator" where
  "pulls fp 0 osc = osc"
| "pulls fp (Suc n) osc = pulls fp n (snd (process fp osc))"

section \<open>WavWriter\<close>

text \<open>A \<open>std::runtime_error\<close> carries its message.\<close>

datatype error = runtime_error string

record WavWriter =
  buffer :: "int16 list"
  maxAmplitude :: real

text \<open>
  \<open>buffer.size() * sizeof(int16_t)\<close> is computed in \<open>size_t\<close> (64 bits) and then stored
  in the 32-bit field \<open>dataSize\<close>, which keeps its low 32 bits.
\<close>

definition buffer_size :: "WavWriter \<Rightarrow> size_t" where
  "buffer_size w = word_of_nat (length (buffer w))"

definition sizeof_int16 :: size_t where "sizeof_int16 = 2"

text \<open>
  Lines 114 to 116 of \<open>writeToFile\<close>: \<open>wav::Header header;\<close> default-initialises the
  struct, which assigns nothing, so the object starts with whatever the stack holds (the
  argument \<open>indeterminate\<close>); then exactly two fields are assigned.
\<close>

definition init_header :: "Header \<Rightarrow> WavWriter \<Rightarrow> Header" where
  "init_header indeterminate w =
     (let header = indeterminate;
          header = header\<lparr>dataSize := ucast (buffer_size w * sizeof_int16)\<rparr>;
          header = header\<lparr>chunkSize := HEADER_SIZE + dataSize header - 8\<rparr>
      in header)"

text \<open>
  The constructor: \<open>std::pow(2.0, wav::BIT_DEPTH - 1) - 1\<close>, exact in \<open>double\<close>;
  \<open>reserve\<close> changes the capacity only.
\<close>

definition WavWriter_ctor :: WavWriter where
  "WavWriter_ctor = \<lparr>buffer = [], maxAmplitude = 2 ^ (unat BIT_DEPTH - 1) - 1\<rparr>"

text \<open>Truncation toward zero, the rounding of a floating-to-integer conversion.\<close>

definition trunc :: "real \<Rightarrow> int" where
  "trunc x = (if 0 \<le> x then \<lfloor>x\<rfloor> else \<lceil>x\<rceil>)"

text \<open>
  C++ defines the conversion of a floating-point value to \<open>int16_t\<close> only when the
  truncated value fits the type.
\<close>

definition representable_int16 :: "real \<Rightarrow> bool" where
  "representable_int16 x \<longleftrightarrow> - 32768 \<le> trunc x \<and> trunc x \<le> 32767"

text \<open>
  \<open>static_cast<int16_t>\<close> of a \<open>double\<close> as the x86-64 compilers translate it: the
  instruction \<open>cvttsd2si\<close> converts with truncation to a 32-bit signed integer and gives
  the integer indefinite value \<open>0x80000000\<close> when the truncated value does not fit 32 bits;
  the low 16 bits of its result are the \<open>int16_t\<close>. On a representable value this is the
  value C++ defines; elsewhere it is what this machine stores.
\<close>

definition cvttsd2si :: "real \<Rightarrow> 32 word" where
  "cvttsd2si x =
     (let t = trunc x
      in if - 2147483648 \<le> t \<and> t \<le> 2147483647 then word_of_int t else 0x80000000)"

definition static_cast_int16 :: "real \<Rightarrow> int16" where
  "static_cast_int16 x = ucast (cvttsd2si x)"

text \<open>
  \<open>addSample\<close>: the \<open>float\<close> argument is promoted to \<open>double\<close> and multiplied by
  \<open>maxAmplitude\<close>. The product of a binary32 value (24 significant bits) and 32767
  (15 bits) has at most 39 significant bits, so the \<open>double\<close> product is exact and no
  rounding appears here. The converted value is always appended.
\<close>

definition addSample :: "real \<Rightarrow> WavWriter \<Rightarrow> WavWriter" where
  "addSample sample w = w\<lparr>buffer := buffer w @ [static_cast_int16 (sample * maxAmplitude w)]\<rparr>"

text \<open>The bytes behind \<open>buffer.data()\<close>: two per sample, low byte first.\<close>

definition buffer_bytes :: "WavWriter \<Rightarrow> byte list" where
  "buffer_bytes w = concat (map bytes_of_u16 (buffer w))"

subsection \<open>The output stream\<close>

text \<open>
  A \<open>std::ofstream\<close> on a destination that accepts \<open>room\<close> more bytes. A write that does not
  fit stores what fits and sets the error state; a write on a stream in the error state
  stores nothing. No write throws (the exception mask of the stream is never set).
\<close>

record ofstream =
  good :: bool
  contents :: "byte list"
  room :: nat

definition ofstream_write :: "ofstream \<Rightarrow> byte list \<Rightarrow> ofstream" where
  "ofstream_write file bs =
     (if \<not> good file then file
      else if length bs \<le> room file
        then file\<lparr>contents := contents file @ bs, room := room file - length bs\<rparr>
        else file\<lparr>good := False, contents := contents file @ take (room file) bs, room := 0\<rparr>)"

text \<open>
  What the program meets when it runs: which paths can be opened for writing, how many
  bytes the destination accepts, and the bytes that the stack holds where
  \<open>writeToFile\<close> places its local \<open>header\<close>.
\<close>

record environment =
  can_open :: "string \<Rightarrow> bool"
  capacity :: nat
  indeterminate :: Header

definition CHUNK_SIZE :: nat where "CHUNK_SIZE = 8192"

text \<open>
  The \<open>while (remaining > 0)\<close> loop. \<open>audioData\<close> is the part of the buffer from the
  pointer on; \<open>remaining\<close> only decreases, so the \<open>size_t\<close> never wraps and is a \<open>nat\<close>.
\<close>

function write_chunks :: "ofstream \<Rightarrow> byte list \<Rightarrow> nat \<Rightarrow> ofstream" where
  "write_chunks file audioData remaining =
     (if remaining > 0
      then let writeSize = min remaining CHUNK_SIZE;
               file = ofstream_write file (take writeSize audioData)
           in write_chunks file (drop writeSize audioData) (remaining - writeSize)
      else file)"
  by pat_completeness auto
termination
  by (relation "measure (\<lambda>(file, audioData, remaining). remaining)") (auto simp: CHUNK_SIZE_def)

declare write_chunks.simps [simp del]

definition writeToFile :: "environment \<Rightarrow> string \<Rightarrow> WavWriter \<Rightarrow> error + ofstream" where
  "writeToFile env filename w =
     (if \<not> can_open env filename
      then Inl (runtime_error (''Could not open file: '' @ filename))
      else let file = \<lparr>good = True, contents = [], room = capacity env\<rparr>;
               header = init_header (indeterminate env) w;
               file = ofstream_write file (bytes_of_Header header);
               audioData = buffer_bytes w;
               remaining = unat (dataSize header)
           in Inr (write_chunks file audioData remaining))"

section \<open>main\<close>

definition DURATION_SECONDS :: nat where "DURATION_SECONDS = 2"
definition FREQUENCY :: real where "FREQUENCY = 440"
definition AMPLITUDE :: real where "AMPLITUDE = 1 / 2"

text \<open>The generation loop, by the number of iterations still to run.\<close>

fun generate :: "fpu \<Rightarrow> nat \<Rightarrow> SineOscillator \<Rightarrow> WavWriter \<Rightarrow> SineOscillator \<times> WavWriter" where
  "generate fp 0 oscillator writer = (oscillator, writer)"
| "generate fp (Suc n) oscillator writer =
     (case process fp oscillator of
        (sample, oscillator) \<Rightarrow> generate fp n oscillator (addSample sample writer))"

text \<open>
  What a run leaves behind: the exit code, the text on the standard error stream, and the
  bytes of \<open>audio.wav\<close> if the file was opened.
\<close>

record outcome =
  exit_code :: int
  cerr :: string
  audio_wav :: "byte list option"

text \<open>The \<open>catch (const std::exception& e)\<close> clause; \<open>std::endl\<close> ends the line.\<close>

fun handler :: "error \<Rightarrow> outcome" where
  "handler (runtime_error what) =
     \<lparr>exit_code = 1, cerr = ''Error: '' @ what @ [CHR 0x0A], audio_wav = None\<rparr>"

definition main :: "fpu \<Rightarrow> environment \<Rightarrow> outcome" where
  "main fp env =
     (let oscillator = SineOscillator_ctor fp FREQUENCY AMPLITUDE;
          writer = WavWriter_ctor
      in case generate fp (unat SAMPLE_RATE * DURATION_SECONDS) oscillator writer of
           (oscillator, writer) \<Rightarrow>
             (case writeToFile env ''audio.wav'' writer of
                Inl e \<Rightarrow> handler e
              | Inr file \<Rightarrow> \<lparr>exit_code = 0, cerr = [], audio_wav = Some (contents file)\<rparr>))"

section \<open>Concrete inputs\<close>

text \<open>A stack region that happens to hold zero bytes only.\<close>

definition zeroed :: Header where
  "zeroed = \<lparr>riffHeader = (0, 0, 0, 0), chunkSize = 0, waveHeader = (0, 0, 0, 0),
     fmtHeader = (0, 0, 0, 0), subchunk1Size = 0, audioFormat = 0, numChannels = 0,
     sampleRate = 0, byteRate = 0, blockAlign = 0, bitsPerSample = 0,
     dataHeader = (0, 0, 0, 0), dataSize = 0\<rparr>"

text \<open>A destination that opens and has room for a terabyte.\<close>

definition roomy :: environment where
  "roomy = \<lparr>can_open = (\<lambda>path. True), capacity = 2 ^ 40, indeterminate = zeroed\<rparr>"

text \<open>A destination that opens but accepts no byte (a full disk).\<close>

definition full_disk :: environment where
  "full_disk = \<lparr>can_open = (\<lambda>path. True), capacity = 0, indeterminate = zeroed\<rparr>"

text \<open>A working directory in which no file can be created.\<close>

definition read_only :: environment where
  "read_only = \<lparr>can_open = (\<lambda>path. False), capacity = 2 ^ 40, indeterminate = zeroed\<rparr>"

section \<open>The header sizes\<close>

lemma ucast_size_t_twice:
  "(ucast (word_of_nat n * 2 :: size_t) :: uint32) = 2 * word_of_nat n"
proof -
  have d: "is_down (ucast :: size_t \<Rightarrow> uint32)"
    by (simp add: is_down)
  have "(word_of_nat n * 2 :: size_t) = word_of_int (2 * int n)"
    by simp
  then have "(ucast (word_of_nat n * 2 :: size_t) :: uint32) = word_of_int (2 * int n)"
    by (simp only: ucast_down_wi [OF d])
  then show ?thesis by simp
qed

lemma dataSize_init_header:
  "dataSize (init_header g w) = word_of_nat (2 * length (buffer w))"
  by (simp add: init_header_def buffer_size_def sizeof_int16_def ucast_size_t_twice)

lemma chunkSize_init_header:
  "chunkSize (init_header g w) = word_of_nat (36 + 2 * length (buffer w))"
  by (simp add: init_header_def buffer_size_def sizeof_int16_def ucast_size_t_twice
      HEADER_SIZE_def)

lemma unat_dataSize:
  "unat (dataSize (init_header g w)) = (2 * length (buffer w)) mod 2 ^ 32"
  by (simp only: dataSize_init_header unat_of_nat) simp

lemma unat_chunkSize:
  "unat (chunkSize (init_header g w)) = (36 + 2 * length (buffer w)) mod 2 ^ 32"
  by (simp only: chunkSize_init_header unat_of_nat) simp

text \<open>
  C2, as stated, fails: a buffer of \<open>2^31\<close> samples has \<open>2 * L = 2^32\<close>, which the 32-bit
  field \<open>dataSize\<close> stores as 0, and \<open>chunkSize\<close> becomes 36.
\<close>

theorem header_sizes_wrap_counterexample:
  "length (buffer \<lparr>buffer = replicate (2 ^ 31) 0, maxAmplitude = 32767\<rparr>) = 2 ^ 31 \<and>
   unat (dataSize (init_header zeroed \<lparr>buffer = replicate (2 ^ 31) 0, maxAmplitude = 32767\<rparr>)) = 0 \<and>
   unat (chunkSize (init_header zeroed \<lparr>buffer = replicate (2 ^ 31) 0, maxAmplitude = 32767\<rparr>)) = 36"
  by (simp add: unat_dataSize unat_chunkSize)

text \<open>
  C2, amended: for every buffer length \<open>L\<close>, \<open>writeToFile\<close> sets \<open>dataSize\<close> to
  \<open>2 * L mod 2^32\<close> and \<open>chunkSize\<close> to \<open>headerSize + dataSize - 8\<close> in 32-bit arithmetic,
  that is \<open>(36 + 2 * L) mod 2^32\<close>; whenever \<open>36 + 2 * L < 2^32\<close> these are \<open>2 * L\<close> and
  \<open>36 + 2 * L\<close>.
\<close>

theorem header_sizes:
  "unat (dataSize (init_header g w)) = (2 * length (buffer w)) mod 2 ^ 32 \<and>
   chunkSize (init_header g w) = HEADER_SIZE + dataSize (init_header g w) - 8 \<and>
   unat (chunkSize (init_header g w)) = (36 + 2 * length (buffer w)) mod 2 ^ 32 \<and>
   (36 + 2 * length (buffer w) < 2 ^ 32 \<longrightarrow>
      unat (dataSize (init_header g w)) = 2 * length (buffer w) \<and>
      unat (chunkSize (init_header g w)) = 36 + 2 * length (buffer w))"
proof -
  have eq: "chunkSize (init_header g w) = HEADER_SIZE + dataSize (init_header g w) - 8"
    by (simp add: init_header_def)
  have small: "unat (dataSize (init_header g w)) = 2 * length (buffer w) \<and>
      unat (chunkSize (init_header g w)) = 36 + 2 * length (buffer w)"
    if "36 + 2 * length (buffer w) < 2 ^ 32"
    using that by (simp only: unat_dataSize unat_chunkSize) simp
  from eq small show ?thesis
    using unat_dataSize [of g w] unat_chunkSize [of g w] by blast
qed

theorem header_sizes_witness:
  "36 + 2 * length (buffer \<lparr>buffer = [1, 2, 3], maxAmplitude = 32767\<rparr>) < (2::nat) ^ 32 \<and>
   unat (dataSize (init_header zeroed \<lparr>buffer = [1, 2, 3], maxAmplitude = 32767\<rparr>)) = 6 \<and>
   unat (chunkSize (init_header zeroed \<lparr>buffer = [1, 2, 3], maxAmplitude = 32767\<rparr>)) = 42"
proof -
  have small: "36 + 2 * length (buffer \<lparr>buffer = [1, 2, 3], maxAmplitude = 32767\<rparr>) < (2::nat) ^ 32"
    by simp
  with header_sizes [of zeroed "\<lparr>buffer = [1, 2, 3], maxAmplitude = 32767\<rparr>"]
  have "unat (dataSize (init_header zeroed \<lparr>buffer = [1, 2, 3], maxAmplitude = 32767\<rparr>)) =
      2 * length (buffer \<lparr>buffer = [1, 2, 3], maxAmplitude = 32767\<rparr>) \<and>
    unat (chunkSize (init_header zeroed \<lparr>buffer = [1, 2, 3], maxAmplitude = 32767\<rparr>)) =
      36 + 2 * length (buffer \<lparr>buffer = [1, 2, 3], maxAmplitude = 32767\<rparr>)"
    by blast
  with small show ?thesis by simp
qed

section \<open>Quantisation\<close>

lemma maxAmplitude_ctor: "maxAmplitude WavWriter_ctor = 32767"
  by (simp add: WavWriter_ctor_def BIT_DEPTH_def)

lemma trunc_abs_le: "\<bar>real_of_int (trunc x)\<bar> \<le> \<bar>x\<bar>"
proof (cases "0 \<le> x")
  case True
  then show ?thesis by (simp add: trunc_def)
next
  case False
  then have "x \<le> real_of_int \<lceil>x\<rceil>" "\<lceil>x\<rceil> \<le> 0"
    by (simp_all add: ceiling_le_iff)
  with False show ?thesis by (simp add: trunc_def)
qed

lemma trunc_abs_gt: "\<bar>x\<bar> < \<bar>real_of_int (trunc x)\<bar> + 1"
proof (cases "0 \<le> x")
  case True
  then show ?thesis by (simp add: trunc_def)
next
  case False
  then have "\<lceil>x\<rceil> \<le> 0"
    by (simp add: ceiling_le_iff)
  moreover have "real_of_int \<lceil>x\<rceil> < x + 1" by linarith
  ultimately show ?thesis using False by (simp add: trunc_def)
qed

lemma trunc_mono: "x \<le> y \<Longrightarrow> trunc x \<le> trunc y"
proof -
  assume xy: "x \<le> y"
  show ?thesis
  proof (cases "0 \<le> x")
    case True
    with xy show ?thesis by (simp add: trunc_def floor_mono)
  next
    case False
    note nx = this
    show ?thesis
    proof (cases "0 \<le> y")
      case True
      have "\<lceil>x\<rceil> \<le> 0" using nx by (simp add: ceiling_le_iff)
      moreover have "0 \<le> \<lfloor>y\<rfloor>" using True by simp
      ultimately have "\<lceil>x\<rceil> \<le> \<lfloor>y\<rfloor>" by linarith
      then show ?thesis using nx True by (simp add: trunc_def)
    next
      case False
      with xy nx show ?thesis by (simp add: trunc_def ceiling_mono)
    qed
  qed
qed

lemma trunc_of_int [simp]: "trunc (of_int k) = k"
  by (simp add: trunc_def)

lemma sint_int16:
  "- 32768 \<le> t \<Longrightarrow> t \<le> 32767 \<Longrightarrow> sint (word_of_int t :: int16) = t"
  by (simp add: signed_of_int signed_take_bit_int_eq_self)

lemma scaled_bounds:
  fixes s :: real
  assumes "\<bar>s\<bar> \<le> 1"
  shows "- 32767 \<le> s * 32767" "s * 32767 \<le> 32767"
  using assms by (simp_all add: abs_le_iff)

lemma trunc_unit:
  assumes "\<bar>s\<bar> \<le> 1"
  shows "- 32767 \<le> trunc (s * 32767)" "trunc (s * 32767) \<le> 32767"
proof -
  have "trunc (real_of_int (- 32767)) \<le> trunc (s * 32767)"
    using scaled_bounds(1) [OF assms] by (intro trunc_mono) simp
  then show "- 32767 \<le> trunc (s * 32767)" by (simp only: trunc_of_int)
  have "trunc (s * 32767) \<le> trunc (real_of_int 32767)"
    using scaled_bounds(2) [OF assms] by (intro trunc_mono) simp
  then show "trunc (s * 32767) \<le> 32767" by (simp only: trunc_of_int)
qed

lemma ucast_int32_int16: "(ucast (word_of_int t :: 32 word) :: int16) = word_of_int t"
proof -
  have "is_down (ucast :: 32 word \<Rightarrow> int16)"
    by (simp add: is_down)
  then show ?thesis
    by (rule ucast_down_wi)
qed

lemma static_cast_int16_wrap:
  assumes "- 2147483648 \<le> trunc x" "trunc x \<le> 2147483647"
  shows "static_cast_int16 x = word_of_int (trunc x)"
  using assms by (simp add: static_cast_int16_def cvttsd2si_def ucast_int32_int16)

lemma static_cast_int16_indefinite:
  assumes "\<not> (- 2147483648 \<le> trunc x \<and> trunc x \<le> 2147483647)"
  shows "static_cast_int16 x = 0"
proof -
  have "(ucast (word_of_int 2147483648 :: 32 word) :: int16) = word_of_int 2147483648"
    by (rule ucast_int32_int16)
  then have "(ucast (0x80000000 :: 32 word) :: int16) = 0"
    by simp
  with assms show ?thesis
    by (auto simp add: static_cast_int16_def cvttsd2si_def Let_def)
qed

lemma static_cast_int16_representable:
  assumes "representable_int16 x"
  shows "static_cast_int16 x = word_of_int (trunc x)" "sint (static_cast_int16 x) = trunc x"
proof -
  have range: "- 32768 \<le> trunc x" "trunc x \<le> 32767"
    using assms by (simp_all add: representable_int16_def)
  then show eq: "static_cast_int16 x = word_of_int (trunc x)"
    by (intro static_cast_int16_wrap) simp_all
  show "sint (static_cast_int16 x) = trunc x"
    unfolding eq using range by (rule sint_int16)
qed

lemma static_cast_int16_of_int:
  assumes "- 2147483648 \<le> k" "k \<le> 2147483647"
  shows "static_cast_int16 (of_int k) = word_of_int k"
  using static_cast_int16_wrap [of "of_int k"] assms by simp

text \<open>Two's-complement truncation to 16 bits, read as a signed number.\<close>

lemma sint_word_of_int16:
  "sint (word_of_int t :: int16) = (t + 32768) mod 65536 - 32768"
  by (simp add: signed_of_int signed_take_bit_eq_take_bit_shift take_bit_eq_mod)

lemma addSample_buffer:
  "buffer (addSample s w) = buffer w @ [static_cast_int16 (s * maxAmplitude w)]"
  "maxAmplitude (addSample s w) = maxAmplitude w"
  by (simp_all add: addSample_def)

text \<open>
  C3: \<open>addSample\<close> scales its input by \<open>2^15 - 1 = 32767\<close> and appends the scaled value
  truncated toward zero (the stored integer \<open>t\<close> is the one with \<open>|t| \<le> |x| < |t| + 1\<close> and
  the sign of \<open>x\<close>) as a 16-bit signed integer, whenever that integer is one; 1.0 is stored
  as 32767, -1.0 as -32767 and 0.0 as 0.
\<close>

theorem addSample_scales_and_truncates:
  assumes "- 32768 \<le> trunc (s * 32767)" and "trunc (s * 32767) \<le> 32767"
    and "maxAmplitude w = maxAmplitude WavWriter_ctor"
  shows "maxAmplitude w = 2 ^ 15 - 1 \<and>
    (\<exists>v. addSample s w = w\<lparr>buffer := buffer w @ [v]\<rparr> \<and> sint v = trunc (s * 32767) \<and>
       \<bar>real_of_int (sint v)\<bar> \<le> \<bar>s * 32767\<bar> \<and> \<bar>s * 32767\<bar> < \<bar>real_of_int (sint v)\<bar> + 1 \<and>
       (0 \<le> s \<longrightarrow> 0 \<le> sint v) \<and> (s \<le> 0 \<longrightarrow> sint v \<le> 0)) \<and>
    addSample 1 WavWriter_ctor = WavWriter_ctor\<lparr>buffer := [32767]\<rparr> \<and>
    addSample (- 1) WavWriter_ctor = WavWriter_ctor\<lparr>buffer := [- 32767]\<rparr> \<and>
    addSample 0 WavWriter_ctor = WavWriter_ctor\<lparr>buffer := [0]\<rparr> \<and>
    sint (- 32767 :: int16) = - 32767"
proof -
  have m: "maxAmplitude w = 32767"
    using assms(3) by (simp add: maxAmplitude_ctor)
  let ?t = "trunc (s * 32767)"
  let ?v = "static_cast_int16 (s * 32767)"
  have r: "representable_int16 (s * 32767)"
    using assms(1,2) by (simp add: representable_int16_def)
  have st: "sint ?v = ?t"
    using r by (rule static_cast_int16_representable)
  have sign: "(0 \<le> s \<longrightarrow> 0 \<le> ?t) \<and> (s \<le> 0 \<longrightarrow> ?t \<le> 0)"
    using trunc_mono [of 0 "s * 32767"] trunc_mono [of "s * 32767" 0] trunc_of_int [of 0]
    by simp
  have stored: "\<exists>v. addSample s w = w\<lparr>buffer := buffer w @ [v]\<rparr> \<and> sint v = trunc (s * 32767) \<and>
       \<bar>real_of_int (sint v)\<bar> \<le> \<bar>s * 32767\<bar> \<and> \<bar>s * 32767\<bar> < \<bar>real_of_int (sint v)\<bar> + 1 \<and>
       (0 \<le> s \<longrightarrow> 0 \<le> sint v) \<and> (s \<le> 0 \<longrightarrow> sint v \<le> 0)"
  proof (intro exI [of _ ?v] conjI)
    show "addSample s w = w\<lparr>buffer := buffer w @ [?v]\<rparr>" by (simp add: addSample_def m)
    show "sint ?v = ?t" by (rule st)
    show "\<bar>real_of_int (sint ?v)\<bar> \<le> \<bar>s * 32767\<bar>"
      unfolding st by (rule trunc_abs_le)
    show "\<bar>s * 32767\<bar> < \<bar>real_of_int (sint ?v)\<bar> + 1"
      unfolding st by (rule trunc_abs_gt)
    show "0 \<le> s \<longrightarrow> 0 \<le> sint ?v"
      unfolding st using sign by blast
    show "s \<le> 0 \<longrightarrow> sint ?v \<le> 0"
      unfolding st using sign by blast
  qed
  have one: "addSample 1 WavWriter_ctor = WavWriter_ctor\<lparr>buffer := [32767]\<rparr>"
    using static_cast_int16_of_int [of 32767] static_cast_int16_of_int [of "- 32767"]
      static_cast_int16_of_int [of 0]
    by (simp add: addSample_def maxAmplitude_ctor) (simp add: WavWriter_ctor_def)
  have minus_one: "addSample (- 1) WavWriter_ctor = WavWriter_ctor\<lparr>buffer := [- 32767]\<rparr>"
    using static_cast_int16_of_int [of 32767] static_cast_int16_of_int [of "- 32767"]
      static_cast_int16_of_int [of 0]
    by (simp add: addSample_def maxAmplitude_ctor) (simp add: WavWriter_ctor_def)
  have zero: "addSample 0 WavWriter_ctor = WavWriter_ctor\<lparr>buffer := [0]\<rparr>"
    using static_cast_int16_of_int [of 32767] static_cast_int16_of_int [of "- 32767"]
      static_cast_int16_of_int [of 0]
    by (simp add: addSample_def maxAmplitude_ctor) (simp add: WavWriter_ctor_def)
  have neg: "sint (- 32767 :: int16) = - 32767"
    by simp
  from m stored one minus_one zero neg show ?thesis
    by simp
qed

theorem addSample_scales_and_truncates_witness:
  "- 32768 \<le> trunc (1 / 2 * 32767) \<and> trunc (1 / 2 * 32767) \<le> 32767 \<and>
   (\<exists>v. addSample (1 / 2) WavWriter_ctor = WavWriter_ctor\<lparr>buffer := buffer WavWriter_ctor @ [v]\<rparr> \<and>
      sint v = trunc (1 / 2 * 32767)) \<and>
   trunc (1 / 2 * 32767) = 16383"
proof -
  have t: "trunc (1 / 2 * 32767) = 16383"
    by (simp add: trunc_def)
  have h: "- 32768 \<le> trunc (1 / 2 * 32767)" "trunc (1 / 2 * 32767) \<le> 32767"
    unfolding t by simp_all
  from addSample_scales_and_truncates [OF h refl] h t show ?thesis
    by blast
qed

text \<open>
  C10: for every sample \<open>s\<close> with \<open>|s| \<le> 1\<close> the scaled value \<open>s * 32767\<close> lies in
  \<open>[-32767, 32767]\<close>, so the conversion inside \<open>addSample\<close> is the one C++ defines (its
  truncated value is representable; the undefined case does not arise) and the value
  appended to the buffer is that truncated value, in that range.
\<close>

theorem addSample_unit_range_defined:
  assumes "\<bar>s\<bar> \<le> 1" and "maxAmplitude w = maxAmplitude WavWriter_ctor"
  shows "- 32767 \<le> s * maxAmplitude w \<and> s * maxAmplitude w \<le> 32767 \<and>
    representable_int16 (s * maxAmplitude w) \<and>
    (\<exists>v. addSample s w = w\<lparr>buffer := buffer w @ [v]\<rparr> \<and>
       sint v = trunc (s * maxAmplitude w) \<and> - 32767 \<le> sint v \<and> sint v \<le> 32767)"
proof -
  have m: "maxAmplitude w = 32767"
    using assms(2) by (simp add: maxAmplitude_ctor)
  let ?t = "trunc (s * 32767)"
  let ?v = "static_cast_int16 (s * 32767)"
  have range: "- 32767 \<le> ?t" "?t \<le> 32767"
    using trunc_unit [OF assms(1)] by simp_all
  then have r: "representable_int16 (s * 32767)"
    by (simp add: representable_int16_def)
  have st: "sint ?v = ?t"
    using r by (rule static_cast_int16_representable)
  have "\<exists>v. addSample s w = w\<lparr>buffer := buffer w @ [v]\<rparr> \<and>
       sint v = ?t \<and> - 32767 \<le> sint v \<and> sint v \<le> 32767"
  proof (intro exI [of _ ?v] conjI)
    show "addSample s w = w\<lparr>buffer := buffer w @ [?v]\<rparr>" by (simp add: addSample_def m)
    show "sint ?v = ?t" by (rule st)
    show "- 32767 \<le> sint ?v" unfolding st by (rule range)
    show "sint ?v \<le> 32767" unfolding st by (rule range)
  qed
  with r show ?thesis
    using scaled_bounds [OF assms(1)] by (simp add: m)
qed

theorem addSample_unit_range_defined_witness:
  "\<bar>1 / 2 :: real\<bar> \<le> 1 \<and>
   representable_int16 (1 / 2 * maxAmplitude WavWriter_ctor) \<and>
   (\<exists>v. addSample (1 / 2) WavWriter_ctor =
      WavWriter_ctor\<lparr>buffer := buffer WavWriter_ctor @ [v]\<rparr> \<and>
      - 32767 \<le> sint v \<and> sint v \<le> 32767)"
proof -
  have h: "\<bar>1 / 2 :: real\<bar> \<le> 1" by simp
  from addSample_unit_range_defined [OF h refl] h show ?thesis
    by blast
qed

text \<open>
  C8, as stated, fails for large inputs: 100000.0 scales to 3276700000, which does not fit
  32 bits; the conversion then gives the integer indefinite value and 0 is stored, not the
  two's-complement truncation 31072 of the scaled value.
\<close>

theorem addSample_large_input_counterexample:
  "trunc (100000 * maxAmplitude WavWriter_ctor) = 3276700000 \<and>
   sint (word_of_int 3276700000 :: int16) = 31072 \<and>
   addSample 100000 WavWriter_ctor = WavWriter_ctor\<lparr>buffer := [0]\<rparr> \<and>
   addSample 100000 WavWriter_ctor \<noteq>
     WavWriter_ctor\<lparr>buffer := [word_of_int (trunc (100000 * maxAmplitude WavWriter_ctor))]\<rparr>"
proof -
  have t: "trunc (100000 * maxAmplitude WavWriter_ctor) = 3276700000"
    by (simp add: maxAmplitude_ctor trunc_def)
  have "\<not> (- 2147483648 \<le> trunc (100000 * maxAmplitude WavWriter_ctor) \<and>
      trunc (100000 * maxAmplitude WavWriter_ctor) \<le> 2147483647)"
    unfolding t by simp
  then have "static_cast_int16 (100000 * maxAmplitude WavWriter_ctor) = 0"
    by (rule static_cast_int16_indefinite)
  then have run: "addSample 100000 WavWriter_ctor = WavWriter_ctor\<lparr>buffer := [0]\<rparr>"
    by (simp add: addSample_def) (simp add: WavWriter_ctor_def)
  have w: "sint (word_of_int 3276700000 :: int16) = 31072"
    by (simp add: sint_word_of_int16)
  then have "(word_of_int 3276700000 :: int16) \<noteq> 0"
    by auto
  with t run w show ?thesis
    by (simp add: WavWriter_ctor_def)
qed

text \<open>
  C8, amended: \<open>addSample\<close> performs no range clamping. For every input, inside \<open>[-1, 1]\<close> or
  not, whose scaled value truncates to an integer \<open>t\<close> that fits 32 bits
  (\<open>-2^31 \<le> t < 2^31\<close>, so every \<open>|s| \<le> 65536\<close>), the value stored is the two's-complement
  truncation of \<open>t\<close> to 16 bits, \<open>(t + 32768) mod 65536 - 32768\<close>, silently wrapping rather
  than saturating: 2.0 is stored as -2 and 1.5 as -16386. For every larger input 0 is
  stored.
\<close>

theorem addSample_no_clamping:
  "(- 2147483648 \<le> trunc (s * maxAmplitude w) \<and> trunc (s * maxAmplitude w) \<le> 2147483647 \<longrightarrow>
      (\<exists>v. addSample s w = w\<lparr>buffer := buffer w @ [v]\<rparr> \<and>
         v = word_of_int (trunc (s * maxAmplitude w)) \<and>
         sint v = (trunc (s * maxAmplitude w) + 32768) mod 65536 - 32768)) \<and>
   (\<not> (- 2147483648 \<le> trunc (s * maxAmplitude w) \<and> trunc (s * maxAmplitude w) \<le> 2147483647) \<longrightarrow>
      addSample s w = w\<lparr>buffer := buffer w @ [0]\<rparr>) \<and>
   addSample 2 WavWriter_ctor = WavWriter_ctor\<lparr>buffer := [- 2]\<rparr> \<and>
   addSample (3 / 2) WavWriter_ctor = WavWriter_ctor\<lparr>buffer := [- 16386]\<rparr> \<and>
   sint (- 2 :: int16) = - 2 \<and> sint (- 16386 :: int16) = - 16386"
proof -
  have wrap: "\<exists>v. addSample s w = w\<lparr>buffer := buffer w @ [v]\<rparr> \<and>
         v = word_of_int (trunc (s * maxAmplitude w)) \<and>
         sint v = (trunc (s * maxAmplitude w) + 32768) mod 65536 - 32768"
    if "- 2147483648 \<le> trunc (s * maxAmplitude w)" "trunc (s * maxAmplitude w) \<le> 2147483647"
    using static_cast_int16_wrap [OF that]
    by (simp add: addSample_def sint_word_of_int16)
  have indefinite: "addSample s w = w\<lparr>buffer := buffer w @ [0]\<rparr>"
    if "\<not> (- 2147483648 \<le> trunc (s * maxAmplitude w) \<and> trunc (s * maxAmplitude w) \<le> 2147483647)"
    using static_cast_int16_indefinite [OF that] by (simp add: addSample_def)
  have t2: "trunc (2 * maxAmplitude WavWriter_ctor) = 65534"
    by (simp add: maxAmplitude_ctor trunc_def)
  have "static_cast_int16 (2 * maxAmplitude WavWriter_ctor) = word_of_int 65534"
    using static_cast_int16_wrap [of "2 * maxAmplitude WavWriter_ctor"] unfolding t2 by simp
  then have two: "addSample 2 WavWriter_ctor = WavWriter_ctor\<lparr>buffer := [- 2]\<rparr>"
    by (simp add: addSample_def) (simp add: WavWriter_ctor_def)
  have t3: "trunc (3 / 2 * maxAmplitude WavWriter_ctor) = 49150"
    by (simp add: maxAmplitude_ctor trunc_def)
  have "static_cast_int16 (3 / 2 * maxAmplitude WavWriter_ctor) = word_of_int 49150"
    using static_cast_int16_wrap [of "3 / 2 * maxAmplitude WavWriter_ctor"] unfolding t3 by simp
  then have three_halves: "addSample (3 / 2) WavWriter_ctor = WavWriter_ctor\<lparr>buffer := [- 16386]\<rparr>"
    by (simp add: addSample_def) (simp add: WavWriter_ctor_def)
  have "sint (- 2 :: int16) = - 2" "sint (- 16386 :: int16) = - 16386"
    by simp_all
  with wrap indefinite two three_halves show ?thesis
    by blast
qed

theorem addSample_no_clamping_witness:
  "(\<exists>v. addSample 4 WavWriter_ctor = WavWriter_ctor\<lparr>buffer := buffer WavWriter_ctor @ [v]\<rparr> \<and>
      sint v = (131068 + 32768) mod 65536 - 32768) \<and>
   trunc (4 * maxAmplitude WavWriter_ctor) = 131068 \<and>
   addSample 1000000 WavWriter_ctor = WavWriter_ctor\<lparr>buffer := buffer WavWriter_ctor @ [0]\<rparr>"
proof -
  have t4: "trunc (4 * maxAmplitude WavWriter_ctor) = 131068"
    by (simp add: maxAmplitude_ctor trunc_def)
  have small: "- 2147483648 \<le> trunc (4 * maxAmplitude WavWriter_ctor) \<and>
      trunc (4 * maxAmplitude WavWriter_ctor) \<le> 2147483647"
    unfolding t4 by simp
  have big: "\<not> (- 2147483648 \<le> trunc (1000000 * maxAmplitude WavWriter_ctor) \<and>
      trunc (1000000 * maxAmplitude WavWriter_ctor) \<le> 2147483647)"
    by (simp add: maxAmplitude_ctor trunc_def)
  have "\<exists>v. addSample 4 WavWriter_ctor = WavWriter_ctor\<lparr>buffer := buffer WavWriter_ctor @ [v]\<rparr> \<and>
      sint v = (trunc (4 * maxAmplitude WavWriter_ctor) + 32768) mod 65536 - 32768"
    using addSample_no_clamping [of 4 WavWriter_ctor] small by blast
  moreover have "addSample 1000000 WavWriter_ctor =
      WavWriter_ctor\<lparr>buffer := buffer WavWriter_ctor @ [0]\<rparr>"
    using addSample_no_clamping [of 1000000 WavWriter_ctor] big by blast
  ultimately show ?thesis
    using t4 by simp
qed

section \<open>Writing the file\<close>

lemma length_bytes_of_Header: "length (bytes_of_Header h) = 44"
  by (simp add: bytes_of_Header_def bytes_of_char4_def bytes_of_u16_def bytes_of_u32_def
      split: prod.splits)

lemma length_buffer_bytes: "length (buffer_bytes w) = 2 * length (buffer w)"
  by (induction "buffer w" arbitrary: w)
    (simp_all add: buffer_bytes_def bytes_of_u16_def length_concat o_def sum_list_triv)

lemma ofstream_write_append:
  "ofstream_write (ofstream_write file xs) ys = ofstream_write file (xs @ ys)"
  by (cases "good file"; cases "length xs \<le> room file"; cases "length ys \<le> room file - length xs")
    (auto simp add: ofstream_write_def)

lemma write_chunks_one_write:
  "write_chunks out audioData remaining = ofstream_write out (take remaining audioData)"
proof (induction out audioData remaining rule: write_chunks.induct)
  case (1 out audioData remaining)
  show ?case
  proof (cases "remaining > 0")
    case True
    define writeSize where "writeSize = min remaining CHUNK_SIZE"
    have le: "writeSize \<le> remaining" by (simp add: writeSize_def)
    have "write_chunks out audioData remaining =
        write_chunks (ofstream_write out (take writeSize audioData))
          (drop writeSize audioData) (remaining - writeSize)"
      using True by (subst write_chunks.simps) (simp add: writeSize_def Let_def)
    also have "\<dots> = ofstream_write (ofstream_write out (take writeSize audioData))
          (take (remaining - writeSize) (drop writeSize audioData))"
      using "1.IH" [OF True writeSize_def refl] .
    also have "\<dots> = ofstream_write out
        (take writeSize audioData @ take (remaining - writeSize) (drop writeSize audioData))"
      by (rule ofstream_write_append)
    also have "take writeSize audioData @ take (remaining - writeSize) (drop writeSize audioData)
        = take remaining audioData"
      using le take_add [of writeSize "remaining - writeSize" audioData] by simp
    finally show ?thesis .
  next
    case False
    then show ?thesis
      by (subst write_chunks.simps) (simp add: ofstream_write_def)
  qed
qed

lemma unat_dataSize_le: "unat (dataSize (init_header g w)) \<le> length (buffer_bytes w)"
  by (simp add: unat_dataSize length_buffer_bytes)

lemma writeToFile_Inl_iff:
  "(\<exists>e. writeToFile env filename w = Inl e) \<longleftrightarrow> \<not> can_open env filename"
  by (simp add: writeToFile_def Let_def)

lemma writeToFile_opened:
  assumes "can_open env filename"
  shows "writeToFile env filename w =
    Inr (ofstream_write \<lparr>good = True, contents = [], room = capacity env\<rparr>
      (bytes_of_Header (init_header (indeterminate env) w) @
       take (unat (dataSize (init_header (indeterminate env) w))) (buffer_bytes w)))"
  using assms
  by (simp add: writeToFile_def Let_def write_chunks_one_write ofstream_write_append)

lemma ofstream_write_good:
  assumes "good (ofstream_write out bs)"
  shows "good out \<and> length bs \<le> room out \<and> contents (ofstream_write out bs) = contents out @ bs"
  using assms by (auto simp add: ofstream_write_def split: if_splits)

lemma writeToFile_good:
  assumes "writeToFile env filename w = Inr out" and "good out"
  shows "contents out = bytes_of_Header (init_header (indeterminate env) w) @
       take (unat (dataSize (init_header (indeterminate env) w))) (buffer_bytes w)"
proof -
  have "can_open env filename"
    using assms(1) by (auto simp add: writeToFile_def split: if_splits)
  from writeToFile_opened [OF this, of w] assms show ?thesis
    using ofstream_write_good by fastforce
qed

lemma writeToFile_roomy:
  assumes "can_open env filename" and "44 + 2 * length (buffer w) \<le> capacity env"
    and "length (buffer w) < 2 ^ 31"
  shows "writeToFile env filename w =
    Inr \<lparr>good = True,
         contents = bytes_of_Header (init_header (indeterminate env) w) @ buffer_bytes w,
         room = capacity env - (44 + 2 * length (buffer w))\<rparr>"
proof -
  have "unat (dataSize (init_header (indeterminate env) w)) = 2 * length (buffer w)"
    using assms(3) by (simp only: unat_dataSize) simp
  then have "take (unat (dataSize (init_header (indeterminate env) w))) (buffer_bytes w) = buffer_bytes w"
    by (simp add: length_buffer_bytes)
  then show ?thesis
    using assms(2)
    by (simp add: writeToFile_opened [OF assms(1)] ofstream_write_def length_bytes_of_Header
        length_buffer_bytes)
qed

lemma static_fields_init_header:
  "riffHeader (init_header g w) = riffHeader g"
  "waveHeader (init_header g w) = waveHeader g"
  "fmtHeader (init_header g w) = fmtHeader g"
  "subchunk1Size (init_header g w) = subchunk1Size g"
  "audioFormat (init_header g w) = audioFormat g"
  "numChannels (init_header g w) = numChannels g"
  "sampleRate (init_header g w) = sampleRate g"
  "byteRate (init_header g w) = byteRate g"
  "blockAlign (init_header g w) = blockAlign g"
  "bitsPerSample (init_header g w) = bitsPerSample g"
  "dataHeader (init_header g w) = dataHeader g"
  by (simp_all add: init_header_def)

lemma tag_RIFF: "tag ''RIFF'' = [0x52, 0x49, 0x46, 0x46]"
  by (simp add: tag_def)

lemma bytes_of_Header_zeroed_empty:
  "bytes_of_Header (init_header zeroed WavWriter_ctor) =
     [0, 0, 0, 0, 36, 0, 0, 0, 0, 0, 0, 0, 0, 0, 0, 0, 0, 0, 0, 0, 0, 0, 0, 0, 0, 0, 0, 0,
      0, 0, 0, 0, 0, 0, 0, 0, 0, 0, 0, 0, 0, 0, 0, 0]"
  by (simp add: bytes_of_Header_def static_fields_init_header chunkSize_init_header
      dataSize_init_header zeroed_def bytes_of_char4_def bytes_of_u32_def bytes_of_u16_def
      WavWriter_ctor_def)

text \<open>
  C4, as stated, fails: for a buffer of \<open>L = 2^31\<close> samples the loop starts from
  \<open>remaining = dataSize = 0\<close> and writes no sample byte; the file has 44 bytes, not
  \<open>44 + 2 * L\<close>.
\<close>

theorem writeToFile_long_buffer_counterexample:
  "writeToFile roomy ''audio.wav'' \<lparr>buffer = replicate (2 ^ 31) 0, maxAmplitude = 32767\<rparr> =
     Inr \<lparr>good = True,
          contents = bytes_of_Header
            (init_header zeroed \<lparr>buffer = replicate (2 ^ 31) 0, maxAmplitude = 32767\<rparr>),
          room = 2 ^ 40 - 44\<rparr> \<and>
   length (bytes_of_Header
     (init_header zeroed \<lparr>buffer = replicate (2 ^ 31) 0, maxAmplitude = 32767\<rparr>)) = 44 \<and>
   44 + 2 * length (buffer \<lparr>buffer = replicate (2 ^ 31) 0, maxAmplitude = 32767\<rparr>) =
     (4294967340 :: nat)"
proof -
  have "unat (dataSize (init_header zeroed \<lparr>buffer = replicate (2 ^ 31) 0, maxAmplitude = 32767\<rparr>)) = 0"
    by (simp add: unat_dataSize)
  then show ?thesis
    by (simp add: writeToFile_opened roomy_def ofstream_write_def length_bytes_of_Header)
qed

text \<open>
  C4, amended: when \<open>writeToFile\<close> returns and the stream is still good (the open and every
  write succeeded), and the buffer holds \<open>L < 2^31\<close> samples, the bytes written are exactly
  the 44-byte header followed by the buffer's little-endian 16-bit sample bytes, \<open>44 + 2 * L\<close>
  bytes in all; and the chunked loop always leaves the stream as one write of the first
  \<open>remaining\<close> bytes does.
\<close>

theorem writeToFile_header_then_samples:
  assumes "writeToFile env filename w = Inr out" and "good out" and "length (buffer w) < 2 ^ 31"
  shows "contents out =
      bytes_of_Header (init_header (indeterminate env) w) @
      concat (map (\<lambda>v. [ucast v, ucast (drop_bit 8 v)]) (buffer w)) \<and>
    length (bytes_of_Header (init_header (indeterminate env) w)) = 44 \<and>
    length (contents out) = 44 + 2 * length (buffer w) \<and>
    write_chunks f audioData remaining = ofstream_write f (take remaining audioData)"
proof -
  have "unat (dataSize (init_header (indeterminate env) w)) = 2 * length (buffer w)"
    using assms(3) by (simp only: unat_dataSize) simp
  then have whole: "take (unat (dataSize (init_header (indeterminate env) w))) (buffer_bytes w) =
      buffer_bytes w"
    by (simp add: length_buffer_bytes)
  have c: "contents out = bytes_of_Header (init_header (indeterminate env) w) @ buffer_bytes w"
    using writeToFile_good [OF assms(1,2)] by (simp only: whole)
  have le: "buffer_bytes w = concat (map (\<lambda>v. [ucast v, ucast (drop_bit 8 v)]) (buffer w))"
    by (simp add: buffer_bytes_def bytes_of_u16_def [abs_def])
  have "length (contents out) = 44 + 2 * length (buffer w)"
    by (simp add: c length_bytes_of_Header length_buffer_bytes)
  with c le show ?thesis
    by (simp add: length_bytes_of_Header write_chunks_one_write)
qed

theorem writeToFile_header_then_samples_witness:
  "writeToFile roomy ''audio.wav'' \<lparr>buffer = [1, - 2], maxAmplitude = 32767\<rparr> =
     Inr \<lparr>good = True,
          contents = bytes_of_Header (init_header zeroed \<lparr>buffer = [1, - 2], maxAmplitude = 32767\<rparr>) @
            [1, 0, 254, 255],
          room = 2 ^ 40 - 48\<rparr> \<and>
   length (bytes_of_Header (init_header zeroed \<lparr>buffer = [1, - 2], maxAmplitude = 32767\<rparr>) @
            [1, 0, 254, 255]) = 44 + 2 * 2"
proof -
  let ?w = "\<lparr>buffer = [1, - 2], maxAmplitude = 32767\<rparr>"
  let ?out = "\<lparr>good = True,
          contents = bytes_of_Header (init_header zeroed ?w) @ [1, 0, 254, 255],
          room = 2 ^ 40 - 48\<rparr>"
  have bytes: "buffer_bytes ?w = [1, 0, 254, 255]"
    by (simp add: buffer_bytes_def bytes_of_u16_def)
  have run: "writeToFile roomy ''audio.wav'' ?w = Inr ?out"
    using writeToFile_roomy [of roomy "''audio.wav''" ?w]
    by (simp add: roomy_def bytes)
  have g: "good ?out" by simp
  have l: "length (buffer ?w) < 2 ^ 31" by simp
  from writeToFile_header_then_samples [OF run g l] run show ?thesis
    by simp
qed

section \<open>The static header fields\<close>

text \<open>
  C1 does not hold of the code: \<open>writeToFile\<close> assigns \<open>dataSize\<close> and \<open>chunkSize\<close> only, and
  the four tags and the seven format fields keep the indeterminate contents of the
  default-initialised struct. On a stack region of zero bytes and an empty buffer the file
  is 44 bytes, all zero except \<open>chunkSize = 36\<close>: none of the four tags and none of the
  seven format values is there.
\<close>

theorem header_static_fields_unassigned:
  "writeToFile roomy ''audio.wav'' WavWriter_ctor =
     Inr \<lparr>good = True, contents = bytes_of_Header (init_header zeroed WavWriter_ctor),
          room = 2 ^ 40 - 44\<rparr> \<and>
   bytes_of_Header (init_header zeroed WavWriter_ctor) =
     [0, 0, 0, 0, 36, 0, 0, 0, 0, 0, 0, 0, 0, 0, 0, 0, 0, 0, 0, 0, 0, 0, 0, 0, 0, 0, 0, 0,
      0, 0, 0, 0, 0, 0, 0, 0, 0, 0, 0, 0, 0, 0, 0, 0] \<and>
   take 4 (bytes_of_Header (init_header zeroed WavWriter_ctor)) \<noteq> tag ''RIFF'' \<and>
   take 4 (drop 8 (bytes_of_Header (init_header zeroed WavWriter_ctor))) \<noteq> tag ''WAVE'' \<and>
   take 4 (drop 12 (bytes_of_Header (init_header zeroed WavWriter_ctor))) \<noteq> tag ''fmt '' \<and>
   take 4 (drop 36 (bytes_of_Header (init_header zeroed WavWriter_ctor))) \<noteq> tag ''data'' \<and>
   subchunk1Size (init_header zeroed WavWriter_ctor) \<noteq> FMT_CHUNK_SIZE \<and>
   audioFormat (init_header zeroed WavWriter_ctor) \<noteq> AUDIO_FORMAT \<and>
   numChannels (init_header zeroed WavWriter_ctor) \<noteq> NUM_CHANNELS \<and>
   sampleRate (init_header zeroed WavWriter_ctor) \<noteq> SAMPLE_RATE \<and>
   byteRate (init_header zeroed WavWriter_ctor) \<noteq> 88200 \<and>
   blockAlign (init_header zeroed WavWriter_ctor) \<noteq> 2 \<and>
   bitsPerSample (init_header zeroed WavWriter_ctor) \<noteq> BIT_DEPTH \<and>
   riffHeader (init_header (indeterminate env) w) = riffHeader (indeterminate env) \<and>
   waveHeader (init_header (indeterminate env) w) = waveHeader (indeterminate env) \<and>
   fmtHeader (init_header (indeterminate env) w) = fmtHeader (indeterminate env) \<and>
   dataHeader (init_header (indeterminate env) w) = dataHeader (indeterminate env) \<and>
   subchunk1Size (init_header (indeterminate env) w) = subchunk1Size (indeterminate env) \<and>
   audioFormat (init_header (indeterminate env) w) = audioFormat (indeterminate env) \<and>
   numChannels (init_header (indeterminate env) w) = numChannels (indeterminate env) \<and>
   sampleRate (init_header (indeterminate env) w) = sampleRate (indeterminate env) \<and>
   byteRate (init_header (indeterminate env) w) = byteRate (indeterminate env) \<and>
   blockAlign (init_header (indeterminate env) w) = blockAlign (indeterminate env) \<and>
   bitsPerSample (init_header (indeterminate env) w) = bitsPerSample (indeterminate env)"
proof -
  have "buffer_bytes WavWriter_ctor = []"
    by (simp add: buffer_bytes_def WavWriter_ctor_def)
  moreover have "length (buffer WavWriter_ctor) = 0"
    by (simp add: WavWriter_ctor_def)
  ultimately have run: "writeToFile roomy ''audio.wav'' WavWriter_ctor =
     Inr \<lparr>good = True, contents = bytes_of_Header (init_header zeroed WavWriter_ctor),
          room = 2 ^ 40 - 44\<rparr>"
    using writeToFile_roomy [of roomy "''audio.wav''" WavWriter_ctor]
    by (simp add: roomy_def)
  have tags: "take 4 (bytes_of_Header (init_header zeroed WavWriter_ctor)) \<noteq> tag ''RIFF''"
    "take 4 (drop 8 (bytes_of_Header (init_header zeroed WavWriter_ctor))) \<noteq> tag ''WAVE''"
    "take 4 (drop 12 (bytes_of_Header (init_header zeroed WavWriter_ctor))) \<noteq> tag ''fmt ''"
    "take 4 (drop 36 (bytes_of_Header (init_header zeroed WavWriter_ctor))) \<noteq> tag ''data''"
    by (simp_all add: bytes_of_Header_zeroed_empty tag_def)
  have fields: "subchunk1Size (init_header zeroed WavWriter_ctor) \<noteq> FMT_CHUNK_SIZE"
    "audioFormat (init_header zeroed WavWriter_ctor) \<noteq> AUDIO_FORMAT"
    "numChannels (init_header zeroed WavWriter_ctor) \<noteq> NUM_CHANNELS"
    "sampleRate (init_header zeroed WavWriter_ctor) \<noteq> SAMPLE_RATE"
    "byteRate (init_header zeroed WavWriter_ctor) \<noteq> 88200"
    "blockAlign (init_header zeroed WavWriter_ctor) \<noteq> 2"
    "bitsPerSample (init_header zeroed WavWriter_ctor) \<noteq> BIT_DEPTH"
    by (simp_all add: static_fields_init_header zeroed_def FMT_CHUNK_SIZE_def AUDIO_FORMAT_def
        NUM_CHANNELS_def SAMPLE_RATE_def BIT_DEPTH_def)
  from run tags fields show ?thesis
    by (simp only: bytes_of_Header_zeroed_empty static_fields_init_header) simp
qed

section \<open>Properties of the binary32 rounding\<close>

lemma rhe_bounds: "\<lfloor>y\<rfloor> \<le> round_half_even y" "round_half_even y \<le> \<lfloor>y\<rfloor> + 1"
  by (simp_all add: round_half_even_def Let_def)

lemma rhe_of_int [simp]: "round_half_even (of_int k) = k"
  by (simp add: round_half_even_def)

lemma rhe_mono: "y \<le> z \<Longrightarrow> round_half_even y \<le> round_half_even z"
proof -
  assume yz: "y \<le> z"
  then have fl: "\<lfloor>y\<rfloor> \<le> \<lfloor>z\<rfloor>" by (rule floor_mono)
  show ?thesis
  proof (cases "\<lfloor>y\<rfloor> = \<lfloor>z\<rfloor>")
    case True
    with yz have "y - of_int \<lfloor>y\<rfloor> \<le> z - of_int \<lfloor>z\<rfloor>" by simp
    with True show ?thesis
      by (auto simp add: round_half_even_def Let_def)
  next
    case False
    with fl have "\<lfloor>y\<rfloor> + 1 \<le> \<lfloor>z\<rfloor>" by simp
    with rhe_bounds(2) [of y] rhe_bounds(1) [of z] show ?thesis by linarith
  qed
qed

lemma ulp32_pos: "0 < ulp32 m"
  by (simp add: ulp32_def)

lemma binade_mono: "0 < m \<Longrightarrow> m \<le> n \<Longrightarrow> binade m \<le> binade n"
  unfolding binade_def by (intro max.mono floor_mono) simp_all

lemma below_next_binade:
  assumes "0 < m" shows "m < 2 powi (binade m + 1)"
proof -
  have "m < 2 powr (real_of_int \<lfloor>log 2 m\<rfloor> + 1)"
    using assms floor_log_eq_powr_iff [of m 2 "\<lfloor>log 2 m\<rfloor>"] by simp
  also have "\<dots> = 2 powi (\<lfloor>log 2 m\<rfloor> + 1)"
    using powr_real_of_int' [of 2 "\<lfloor>log 2 m\<rfloor> + 1"] by simp
  also have "\<dots> \<le> 2 powi (binade m + 1)"
    by (intro power_int_increasing) (simp_all add: binade_def)
  finally show ?thesis .
qed

lemma above_binade:
  assumes "0 < m" "- 126 < binade m" shows "2 powi binade m \<le> m"
proof -
  have b: "binade m = \<lfloor>log 2 m\<rfloor>"
    using assms(2) by (simp add: binade_def max_def split: if_splits)
  have "2 powr (real_of_int \<lfloor>log 2 m\<rfloor>) \<le> m"
    using assms(1) floor_log_eq_powr_iff [of m 2 "\<lfloor>log 2 m\<rfloor>"] by simp
  then show ?thesis
    by (simp add: b powr_real_of_int')
qed


lemma round_magnitude_nonneg: "0 \<le> m \<Longrightarrow> 0 \<le> round_magnitude m"
proof -
  assume m: "0 \<le> m"
  have "0 \<le> m / ulp32 m"
    using m ulp32_pos [of m] by simp
  then have "round_half_even 0 \<le> round_half_even (m / ulp32 m)"
    by (rule rhe_mono)
  then have "0 \<le> round_half_even (m / ulp32 m)"
    using rhe_of_int [of 0] by simp
  then show ?thesis
    using ulp32_pos [of m] by (simp add: round_magnitude_def)
qed

lemma round_magnitude_upper:
  assumes "0 < m" shows "round_magnitude m \<le> 2 powi (binade m + 1)"
proof -
  have "m / ulp32 m \<le> 2 powi (binade m + 1) / ulp32 m"
    using below_next_binade [OF assms] ulp32_pos [of m] by (simp add: divide_right_mono)
  also have "2 powi (binade m + 1) / ulp32 m = (2::real) powi 24"
    using power_int_diff [of "2::real" "binade m + 1" "binade m - 23"] by (simp add: ulp32_def)
  also have "\<dots> = of_int (2 ^ 24)" by simp
  finally have "round_half_even (m / ulp32 m) \<le> round_half_even (of_int (2 ^ 24))"
    by (rule rhe_mono)
  then have "round_half_even (m / ulp32 m) \<le> 2 ^ 24"
    by (simp only: rhe_of_int)
  then have "of_int (round_half_even (m / ulp32 m)) * ulp32 m \<le> of_int (2 ^ 24) * ulp32 m"
    using ulp32_pos [of m] by (intro mult_right_mono) simp_all
  also have "of_int (2 ^ 24) * ulp32 m = 2 powi 24 * 2 powi (binade m - 23)"
    by (simp add: ulp32_def)
  also have "\<dots> = 2 powi (binade m + 1)"
    using power_int_add [of "2::real" 24 "binade m - 23"] by (simp add: add.commute)
  finally show ?thesis
    using assms by (simp add: round_magnitude_def)
qed

lemma round_magnitude_lower:
  assumes "0 < m" "- 126 < binade m" shows "2 powi binade m \<le> round_magnitude m"
proof -
  have "2 powi binade m / ulp32 m \<le> m / ulp32 m"
    using above_binade [OF assms] ulp32_pos [of m] by (simp add: divide_right_mono)
  moreover have "2 powi binade m / ulp32 m = (2::real) powi 23"
    using power_int_diff [of "2::real" "binade m" "binade m - 23"] by (simp add: ulp32_def)
  moreover have "(2::real) powi 23 = of_int (2 ^ 23)" by simp
  ultimately have "round_half_even (of_int (2 ^ 23)) \<le> round_half_even (m / ulp32 m)"
    by (intro rhe_mono) simp
  then have "2 ^ 23 \<le> round_half_even (m / ulp32 m)"
    by (simp only: rhe_of_int)
  then have "of_int (2 ^ 23) * ulp32 m \<le> of_int (round_half_even (m / ulp32 m)) * ulp32 m"
    using ulp32_pos [of m] by (intro mult_right_mono) simp_all
  moreover have "of_int (2 ^ 23) * ulp32 m = 2 powi 23 * 2 powi (binade m - 23)"
    by (simp add: ulp32_def)
  moreover have "2 powi 23 * 2 powi (binade m - 23) = (2::real) powi binade m"
    using power_int_add [of "2::real" 23 "binade m - 23"] by simp
  ultimately show ?thesis
    using assms by (simp add: round_magnitude_def)
qed

lemma round_magnitude_mono:
  assumes "0 \<le> m" "m \<le> n" shows "round_magnitude m \<le> round_magnitude n"
proof (cases "m = 0")
  case True
  then show ?thesis
    using round_magnitude_nonneg [of n] assms by (simp add: round_magnitude_def)
next
  case False
  with assms have m: "0 < m" and n: "0 < n" by simp_all
  have le: "binade m \<le> binade n"
    using m assms(2) by (rule binade_mono)
  show ?thesis
  proof (cases "binade m = binade n")
    case True
    then have u: "ulp32 n = ulp32 m" by (simp add: ulp32_def)
    have "m / ulp32 m \<le> n / ulp32 m"
      using assms(2) ulp32_pos [of m] by (simp add: divide_right_mono)
    then have "round_half_even (m / ulp32 m) \<le> round_half_even (n / ulp32 m)"
      by (rule rhe_mono)
    then have "of_int (round_half_even (m / ulp32 m)) * ulp32 m
        \<le> of_int (round_half_even (n / ulp32 m)) * ulp32 m"
      using ulp32_pos [of m] by (intro mult_right_mono) simp_all
    then show ?thesis
      using m n by (simp add: round_magnitude_def u)
  next
    case False
    with le have lt: "binade m + 1 \<le> binade n" by simp
    have "- 126 \<le> binade m" by (simp add: binade_def)
    with lt have "- 126 < binade n" by simp
    then have "2 powi binade n \<le> round_magnitude n"
      using n round_magnitude_lower by simp
    moreover have "round_magnitude m \<le> 2 powi (binade m + 1)"
      using m by (rule round_magnitude_upper)
    moreover have "(2::real) powi (binade m + 1) \<le> 2 powi binade n"
      using lt by (intro power_int_increasing) simp_all
    ultimately show ?thesis by linarith
  qed
qed

lemma float32_round_mono: "x \<le> y \<Longrightarrow> float32_round x \<le> float32_round y"
proof -
  assume xy: "x \<le> y"
  consider "0 \<le> x" | "x < 0" "0 \<le> y" | "x < 0" "y < 0" by linarith
  then show ?thesis
  proof cases
    case 1
    with xy show ?thesis
      by (simp add: float32_round_def round_magnitude_mono)
  next
    case 2
    then have "0 \<le> round_magnitude (- x)" "0 \<le> round_magnitude y"
      by (simp_all add: round_magnitude_nonneg)
    with 2 show ?thesis
      by (simp add: float32_round_def)
  next
    case 3
    then have "round_magnitude (- y) \<le> round_magnitude (- x)"
      using xy by (intro round_magnitude_mono) simp_all
    with 3 show ?thesis
      by (simp add: float32_round_def)
  qed
qed


lemma round_magnitude_integral:
  assumes "m / ulp32 m = of_int j" shows "round_magnitude m = m"
proof (cases "m = 0")
  case True
  then show ?thesis by (simp add: round_magnitude_def)
next
  case False
  have "of_int (round_half_even (m / ulp32 m)) * ulp32 m = m / ulp32 m * ulp32 m"
    by (simp only: assms rhe_of_int)
  also have "\<dots> = m"
    using ulp32_pos [of m] by simp
  finally show ?thesis
    using False by (simp add: round_magnitude_def)
qed

lemma binade_quarters:
  assumes "0 < k" "k \<le> 2 ^ 20" shows "binade (of_int k / 4) \<le> 18"
proof -
  have "of_int k / 4 \<le> (2::real) ^ 18"
  proof -
    have "real_of_int k \<le> real_of_int (2 ^ 20)"
      using assms(2) by (simp only: of_int_le_iff)
    then show ?thesis by simp
  qed
  moreover have "0 < real_of_int k / 4" using assms(1) by simp
  ultimately have "log 2 (of_int k / 4) \<le> log 2 ((2::real) ^ 18)"
    by (simp only: log_le_cancel_iff [of 2] one_less_numeral_iff semiring_norm zero_less_power zero_less_numeral)
  also have "log 2 ((2::real) ^ 18) = real 18 * log 2 2"
    by (rule log_nat_power) simp
  also have "\<dots> = 18" by simp
  finally have "\<lfloor>log 2 (of_int k / 4)\<rfloor> \<le> 18"
    by (simp add: floor_le_iff)
  then show ?thesis
    by (simp add: binade_def)
qed

lemma round_magnitude_quarters:
  assumes "0 \<le> k" "k \<le> 2 ^ 20" shows "round_magnitude (of_int k / 4) = of_int k / 4"
proof (cases "k = 0")
  case True
  then show ?thesis by (simp add: round_magnitude_def)
next
  case False
  with assms have k: "0 < k" by simp
  define d where "d = 21 - binade (of_int k / 4)"
  have d: "0 \<le> d"
    using binade_quarters [OF k assms(2)] by (simp add: d_def)
  have inv: "1 / ulp32 (of_int k / 4) = 2 powi (- (binade (of_int k / 4) - 23))"
    by (simp only: ulp32_def power_int_minus inverse_eq_divide)
  have quarter: "(2::real) powi (- 2) = 1 / 4"
    by (simp add: power_int_minus)
  have "of_int k / 4 / ulp32 (of_int k / 4) = of_int k * (1 / 4 * (1 / ulp32 (of_int k / 4)))"
    by simp
  also have "\<dots> = of_int k * (2 powi (- 2) * 2 powi (- (binade (of_int k / 4) - 23)))"
    by (simp only: inv quarter)
  also have "2 powi (- 2) * 2 powi (- (binade (of_int k / 4) - 23)) = (2::real) powi d"
    using power_int_add [of "2::real" "- 2" "- (binade (of_int k / 4) - 23)"] by (simp add: d_def)
  also have "(2::real) powi d = of_int (2 ^ nat d)"
    using d by (simp add: power_int_nonneg_exp)
  finally have "of_int k / 4 / ulp32 (of_int k / 4) = of_int (k * 2 ^ nat d)"
    by simp
  then show ?thesis
    by (rule round_magnitude_integral)
qed

lemma float32_round_quarters:
  assumes "\<bar>k\<bar> \<le> 2 ^ 20" shows "float32_round (of_int k / 4) = of_int k / 4"
proof (cases "0 \<le> k")
  case True
  with assms show ?thesis
    using round_magnitude_quarters [of k] by (simp add: float32_round_def)
next
  case False
  with assms have "0 \<le> - k" "- k \<le> 2 ^ 20" by simp_all
  then have "round_magnitude (of_int (- k) / 4) = of_int (- k) / 4"
    by (rule round_magnitude_quarters)
  with False show ?thesis
    by (simp add: float32_round_def)
qed


lemma binade_eq:
  assumes "2 powi e \<le> m" "m < 2 powi (e + 1)" "- 126 \<le> e"
  shows "binade m = e"
proof -
  have pos: "0 < m"
    using assms(1) zero_less_power_int [of "2::real" e] by linarith
  have "2 powr real_of_int e \<le> m \<and> m < 2 powr (real_of_int e + 1)"
    using assms(1,2) powr_real_of_int' [of 2 e] powr_real_of_int' [of 2 "e + 1"] by simp
  then have "\<lfloor>log 2 m\<rfloor> = e"
    using floor_log_eq_powr_iff [of m 2 e] pos by simp
  with assms(3) show ?thesis
    by (simp add: binade_def)
qed

text \<open>\<open>2^24 + 1\<close> lies half way between two binary32 values and goes to the even one.\<close>

lemma float32_round_tie: "float32_round 16777217 = 16777216"
proof -
  have b: "binade 16777217 = 24"
    by (rule binade_eq) simp_all
  have u: "ulp32 16777217 = 2"
    by (simp add: ulp32_def b)
  show ?thesis
    by (simp add: float32_round_def round_magnitude_def u round_half_even_def)
qed

text \<open>\<open>static_cast<float>(M_PI)\<close> is \<open>13176795 * 2^-22 = 3.14159274...\<close>, above \<open>\<pi>\<close>.\<close>

lemma float32_round_double_pi:
  "float32_round (884279719003555 / 2 ^ 48) = 13176795 / 2 ^ 22"
proof -
  have b: "binade (884279719003555 / 2 ^ 48) = 1"
    by (rule binade_eq) simp_all
  have "ulp32 (884279719003555 / 2 ^ 48) = 2 powi (1 - 23)"
    by (simp only: ulp32_def b)
  also have "\<dots> = 1 / 2 ^ 22"
    by (simp add: power_int_minus inverse_eq_divide)
  finally have u: "ulp32 (884279719003555 / 2 ^ 48) = 1 / 2 ^ 22" .
  have q: "(884279719003555 / 2 ^ 48 :: real) / (1 / 2 ^ 22) = 884279719003555 / 67108864"
    by simp
  have r: "round_half_even (884279719003555 / 67108864) = 13176795"
    by (simp add: round_half_even_def)
  show ?thesis
    by (simp only: float32_round_def round_magnitude_def u q r) simp
qed

lemma float32_round_M_PI: "float32_round M_PI = 13176795 / 2 ^ 22"
  unfolding M_PI_def by (rule float32_round_double_pi)

lemma float32_round_TWO_PI_value: "float32_round (13176795 / 2 ^ 21) = 13176795 / 2 ^ 21"
proof -
  have b: "binade (13176795 / 2 ^ 21) = 2"
    by (rule binade_eq) simp_all
  have "ulp32 (13176795 / 2 ^ 21) = 2 powi (2 - 23)"
    by (simp only: ulp32_def b)
  also have "\<dots> = 1 / 2 ^ 21"
    by (simp add: power_int_minus inverse_eq_divide)
  finally have u: "ulp32 (13176795 / 2 ^ 21) = 1 / 2 ^ 21" .
  have "(13176795 / 2 ^ 21 :: real) / ulp32 (13176795 / 2 ^ 21) = of_int 13176795"
    by (simp only: u) simp
  then have "round_magnitude (13176795 / 2 ^ 21) = 13176795 / 2 ^ 21"
    by (rule round_magnitude_integral)
  then show ?thesis
    by (simp add: float32_round_def)
qed

lemma float32_round_below_TWO_PI_value:
  "float32_round (13176794 / 2 ^ 21) = 13176794 / 2 ^ 21"
proof -
  have b: "binade (13176794 / 2 ^ 21) = 2"
    by (rule binade_eq) simp_all
  have "ulp32 (13176794 / 2 ^ 21) = 2 powi (2 - 23)"
    by (simp only: ulp32_def b)
  also have "\<dots> = 1 / 2 ^ 21"
    by (simp add: power_int_minus inverse_eq_divide)
  finally have u: "ulp32 (13176794 / 2 ^ 21) = 1 / 2 ^ 21" .
  have "(13176794 / 2 ^ 21 :: real) / ulp32 (13176794 / 2 ^ 21) = of_int 13176794"
    by (simp only: u) simp
  then have "round_magnitude (13176794 / 2 ^ 21) = 13176794 / 2 ^ 21"
    by (rule round_magnitude_integral)
  then show ?thesis
    by (simp add: float32_round_def)
qed

text \<open>No binary32 value lies strictly between \<open>13176794 * 2^-21\<close> and \<open>13176795 * 2^-21\<close>.\<close>

lemma float32_round_gap:
  assumes "float32_round y < 13176795 / 2 ^ 21"
  shows "float32_round y \<le> 13176794 / 2 ^ 21"
proof -
  consider "y \<le> 13176794 / 2 ^ 21" | "13176795 / 2 ^ 21 \<le> y"
    | "13176794 / 2 ^ 21 < y" "y < 13176795 / 2 ^ 21"
    by linarith
  then show ?thesis
  proof cases
    case 1
    then have "float32_round y \<le> float32_round (13176794 / 2 ^ 21)"
      by (rule float32_round_mono)
    then show ?thesis
      by (simp only: float32_round_below_TWO_PI_value)
  next
    case 2
    then have "float32_round (13176795 / 2 ^ 21) \<le> float32_round y"
      by (rule float32_round_mono)
    then have "13176795 / 2 ^ 21 \<le> float32_round y"
      by (simp only: float32_round_TWO_PI_value)
    with assms show ?thesis
      by linarith
  next
    case 3
    then have pos: "0 < y" "\<not> y < 0" "y \<noteq> 0" by simp_all
    have b: "binade y = 2"
      using 3 by (intro binade_eq) simp_all
    have "ulp32 y = 2 powi (2 - 23)"
      by (simp only: ulp32_def b)
    also have "\<dots> = 1 / 2 ^ 21"
      by (simp add: power_int_minus inverse_eq_divide)
    finally have u: "ulp32 y = 1 / 2 ^ 21" .
    have r: "float32_round y = of_int (round_half_even (y * 2 ^ 21)) / 2 ^ 21"
      using pos by (simp add: float32_round_def round_magnitude_def u)
    have "of_int (round_half_even (y * 2 ^ 21)) < (13176795 :: real)"
      using assms by (simp add: r)
    then have "round_half_even (y * 2 ^ 21) < 13176795"
      by linarith
    then have "round_half_even (y * 2 ^ 21) \<le> 13176794"
      by simp
    then have "real_of_int (round_half_even (y * 2 ^ 21)) \<le> 13176794"
      by linarith
    then show ?thesis
      by (simp add: r)
  qed
qed

text \<open>The constant \<open>TWO_PI\<close> of the code on this machine: \<open>13176795 * 2^-21 = 6.28318548...\<close>\<close>

lemma TWO_PI_ieee32: "TWO_PI ieee32 = 13176795 / 2 ^ 21"
proof -
  have "2 * float32_round M_PI = 13176795 / 2 ^ 21"
    by (simp only: float32_round_M_PI) simp
  with float32_round_TWO_PI_value show ?thesis
    by (simp only: TWO_PI_def ieee32_def fpu.simps)
qed

section \<open>The oscillator\<close>

lemma rounds_to_grid_mono: "rounds_to_grid rnd \<Longrightarrow> x \<le> y \<Longrightarrow> rnd x \<le> rnd y"
  by (simp add: rounds_to_grid_def)

lemma rounds_to_grid_fix:
  "rounds_to_grid rnd \<Longrightarrow> \<bar>k\<bar> \<le> 2 ^ 20 \<Longrightarrow> rnd (of_int k / 4) = of_int k / 4"
  by (simp add: rounds_to_grid_def)

lemma rounds_to_grid_exact: "rounds_to_grid (round32 exact)"
  by (simp add: rounds_to_grid_def exact_def)

lemma rounds_to_grid_ieee32: "rounds_to_grid (round32 ieee32)"
  by (simp add: rounds_to_grid_def ieee32_def float32_round_mono float32_round_quarters)

text \<open>Rounding keeps a value between two grid points between them.\<close>

lemma round_between:
  assumes g: "rounds_to_grid rnd" and "\<bar>l\<bar> \<le> 2 ^ 20" "\<bar>u\<bar> \<le> 2 ^ 20"
    and "of_int l / 4 \<le> x" "x \<le> of_int u / 4"
  shows "of_int l / 4 \<le> rnd x" "rnd x \<le> of_int u / 4"
proof -
  have "rnd (of_int l / 4) \<le> rnd x"
    using g assms(4) by (rule rounds_to_grid_mono)
  then show "of_int l / 4 \<le> rnd x"
    by (simp only: rounds_to_grid_fix [OF g assms(2)])
  have "rnd x \<le> rnd (of_int u / 4)"
    using g assms(5) by (rule rounds_to_grid_mono)
  then show "rnd x \<le> of_int u / 4"
    by (simp only: rounds_to_grid_fix [OF g assms(3)])
qed

lemma M_PI_bounds: "3 \<le> M_PI" "M_PI \<le> 13 / 4"
  by (simp_all add: M_PI_def)

lemma TWO_PI_bounds:
  assumes g: "rounds_to_grid (round32 fp)"
  shows "6 \<le> TWO_PI fp" "TWO_PI fp \<le> 13 / 2"
proof -
  have a: "3 \<le> round32 fp M_PI" "round32 fp M_PI \<le> 13 / 4"
    using round_between [OF g, of 12 13 M_PI] M_PI_bounds by simp_all
  then have "6 \<le> 2 * round32 fp M_PI" "2 * round32 fp M_PI \<le> 13 / 2"
    by simp_all
  then show "6 \<le> TWO_PI fp" "TWO_PI fp \<le> 13 / 2"
    using round_between [OF g, of 24 26 "2 * round32 fp M_PI"] by (simp_all add: TWO_PI_def)
qed

lemma angleStep_bounds:
  assumes g: "rounds_to_grid (round32 fp)" and f: "0 < f" "f < real (unat SAMPLE_RATE) / 2"
  shows "0 \<le> angleStep (SineOscillator_ctor fp f a)" "angleStep (SineOscillator_ctor fp f a) \<le> 13 / 4"
proof -
  have f': "f \<le> 22050" using f(2) by (simp add: SAMPLE_RATE_def)
  have "0 \<le> TWO_PI fp * f"
    using TWO_PI_bounds(1) [OF g] f(1) by simp
  moreover have "TWO_PI fp * f \<le> 13 / 2 * 22050"
    using TWO_PI_bounds [OF g] f(1) f' by (intro mult_mono) simp_all
  ultimately have p: "0 \<le> round32 fp (TWO_PI fp * f)" "round32 fp (TWO_PI fp * f) \<le> 143325"
    using round_between [OF g, of 0 573300 "TWO_PI fp * f"] by simp_all
  then have "0 \<le> round32 fp (TWO_PI fp * f) / 44100" "round32 fp (TWO_PI fp * f) / 44100 \<le> 13 / 4"
    by simp_all
  then show "0 \<le> angleStep (SineOscillator_ctor fp f a)" "angleStep (SineOscillator_ctor fp f a) \<le> 13 / 4"
    using round_between [OF g, of 0 13 "round32 fp (TWO_PI fp * f) / 44100"]
    by (simp_all add: SineOscillator_ctor_def SAMPLE_RATE_def)
qed

lemma process_fields:
  "frequency (snd (process fp osc)) = frequency osc"
  "amplitude (snd (process fp osc)) = amplitude osc"
  "angleStep (snd (process fp osc)) = angleStep osc"
  by (simp_all add: process_def Let_def)

lemma process_angle_range:
  assumes g: "rounds_to_grid (round32 fp)"
    and step: "0 \<le> angleStep osc" "angleStep osc \<le> 13 / 4"
    and a: "0 \<le> angle osc" "angle osc < TWO_PI fp"
  shows "0 \<le> angle (snd (process fp osc))" "angle (snd (process fp osc)) < TWO_PI fp"
proof -
  let ?T = "TWO_PI fp"
  let ?a1 = "round32 fp (angle osc + angleStep osc)"
  note T = TWO_PI_bounds [OF g]
  have s: "0 \<le> angle osc + angleStep osc" "angle osc + angleStep osc \<le> 39 / 4"
    using step a T by simp_all
  have a1: "0 \<le> ?a1" "?a1 \<le> 39 / 4"
    using round_between [OF g, of 0 39 "angle osc + angleStep osc"] s by simp_all
  have new: "angle (snd (process fp osc)) = (if ?a1 \<ge> ?T then round32 fp (?a1 - ?T) else ?a1)"
    by (simp add: process_def Let_def)
  show "0 \<le> angle (snd (process fp osc))" "angle (snd (process fp osc)) < TWO_PI fp"
  proof -
    have wrapped: "0 \<le> round32 fp (?a1 - ?T) \<and> round32 fp (?a1 - ?T) < ?T" if "?a1 \<ge> ?T"
    proof -
      have "0 \<le> ?a1 - ?T" "?a1 - ?T \<le> 15 / 4"
        using that a1 T by simp_all
      then have "0 \<le> round32 fp (?a1 - ?T)" "round32 fp (?a1 - ?T) \<le> 15 / 4"
        using round_between [OF g, of 0 15 "?a1 - ?T"] by simp_all
      with T show ?thesis by simp
    qed
    show "0 \<le> angle (snd (process fp osc))"
      using wrapped a1 by (simp add: new)
    show "angle (snd (process fp osc)) < TWO_PI fp"
      using wrapped by (simp add: new)
  qed
qed

lemma pulls_fields:
  "frequency (pulls fp n osc) = frequency osc"
  "amplitude (pulls fp n osc) = amplitude osc"
  "angleStep (pulls fp n osc) = angleStep osc"
  by (induction n arbitrary: osc) (simp_all add: process_fields)

lemma pulls_angle_range:
  assumes g: "rounds_to_grid (round32 fp)"
    and step: "0 \<le> angleStep osc" "angleStep osc \<le> 13 / 4"
    and a: "0 \<le> angle osc" "angle osc < TWO_PI fp"
  shows "0 \<le> angle (pulls fp n osc) \<and> angle (pulls fp n osc) < TWO_PI fp"
  using step a
proof (induction n arbitrary: osc)
  case 0
  then show ?case by simp
next
  case (Suc n)
  have "0 \<le> angleStep (snd (process fp osc))" "angleStep (snd (process fp osc)) \<le> 13 / 4"
    using Suc.prems(1,2) by (simp_all add: process_fields)
  moreover have "0 \<le> angle (snd (process fp osc))" "angle (snd (process fp osc)) < TWO_PI fp"
    using process_angle_range [OF g Suc.prems] by simp_all
  ultimately show ?case
    using Suc.IH [of "snd (process fp osc)"] by simp
qed

subsection \<open>The phase on the binary32 machine, against the real \<open>2\<pi>\<close>\<close>

lemma process_ieee32_rounded:
  "\<exists>y. angle (snd (process ieee32 osc)) = float32_round y"
  by (auto simp add: process_def Let_def ieee32_def)

lemma pulls_rounded:
  "n = 0 \<or> (\<exists>y. angle (pulls ieee32 n osc) = float32_round y)"
proof (induction n arbitrary: osc)
  case 0
  show ?case by simp
next
  case (Suc n)
  show ?case
  proof (cases n)
    case 0
    then show ?thesis
      using process_ieee32_rounded [of osc] by simp
  next
    case (Suc k)
    then show ?thesis
      using Suc.IH [of "snd (process ieee32 osc)"] by simp
  qed
qed


lemma sum16: "(\<Sum>m<16. f m) = f 0 + f 1 + f 2 + f 3 + f 4 + f 5 + f 6 + f 7 + f 8 + f 9 + f 10
    + f 11 + f 12 + f 13 + f 14 + (f 15 :: real)" for f :: "nat \<Rightarrow> real"
  by (simp add: eval_nat_numeral)

lemma cos_sum16:
  "(\<Sum>m<16. cos_coeff m * x ^ m) =
     1 - x^2 / 2 + x^4 / 24 - x^6 / 720 + x^8 / 40320 - x^10 / 3628800
       + x^12 / 479001600 - x^14 / 87178291200" for x :: real
  by (simp only: sum16) (simp add: cos_coeff_def fact_numeral)

lemma cos_lower:
  fixes x :: real
  assumes "0 < x"
  shows "1 - x^2 / 2 + x^4 / 24 - x^6 / 720 + x^8 / 40320 - x^10 / 3628800
       + x^12 / 479001600 - x^14 / 87178291200 - x^16 / 20922789888000 \<le> cos x"
proof -
  obtain t where c: "cos x =
      (\<Sum>m<16. cos_coeff m * x ^ m) + (cos (t + 1/2 * real 16 * pi) / fact 16) * x ^ 16"
    using Maclaurin_cos_expansion2 [of x 16] assms by auto
  define r where "r = cos (t + 1/2 * real 16 * pi)"
  have "- 1 \<le> r" by (simp add: r_def)
  then have "x ^ 16 / 20922789888000 * (- 1) \<le> x ^ 16 / 20922789888000 * r"
    using assms by (intro mult_left_mono) simp_all
  moreover have "(fact 16 :: real) = 20922789888000"
    by (simp add: fact_numeral)
  ultimately have "- (x ^ 16 / 20922789888000) \<le> (r / fact 16) * x ^ 16"
    by (simp add: mult.commute)
  moreover have "cos x = (\<Sum>m<16. cos_coeff m * x ^ m) + (r / fact 16) * x ^ 16"
    using c by (simp only: r_def)
  ultimately show ?thesis
    by (simp only: cos_sum16)
qed

lemma cos_below_pi_half: "0 < cos (15707963 / 10000000 :: real)"
proof -
  have "(0::real) < 1 - (15707963 / 10000000)^2 / 2 + (15707963 / 10000000)^4 / 24
      - (15707963 / 10000000)^6 / 720 + (15707963 / 10000000)^8 / 40320
      - (15707963 / 10000000)^10 / 3628800 + (15707963 / 10000000)^12 / 479001600
      - (15707963 / 10000000)^14 / 87178291200 - (15707963 / 10000000)^16 / 20922789888000"
    by (simp add: power_divide)
  also have "\<dots> \<le> cos (15707963 / 10000000)"
    by (rule cos_lower) simp
  finally show ?thesis .
qed

lemma pi_half_lower: "15707963 / 10000000 < pi / 2"
proof (rule ccontr)
  assume "\<not> 15707963 / 10000000 < pi / 2"
  then have "pi / 2 \<le> 15707963 / 10000000" by simp
  moreover have "(15707963 / 10000000 :: real) \<le> pi"
    using pi_ge_two by simp
  ultimately have "cos (15707963 / 10000000) \<le> cos (pi / 2)"
    by (intro cos_monotone_0_pi_le) simp_all
  with cos_below_pi_half show False by simp
qed

text \<open>The largest binary32 value below \<open>TWO_PI\<close> is below \<open>2\<pi>\<close>.\<close>

lemma below_TWO_PI_below_two_pi: "13176794 / 2 ^ 21 < 2 * pi"
proof -
  have "(13176794 / 2 ^ 21 :: real) < 4 * (15707963 / 10000000)"
    by simp
  also have "\<dots> < 4 * (pi / 2)"
    using pi_half_lower by simp
  finally show ?thesis by simp
qed

lemma pulls_ieee32_below_two_pi:
  assumes "0 < f" and "f < real (unat SAMPLE_RATE) / 2"
  shows "angle (pulls ieee32 n (SineOscillator_ctor ieee32 f a)) < 2 * pi"
proof (cases "n = 0")
  case True
  then show ?thesis
    by (simp add: SineOscillator_ctor_def)
next
  case False
  let ?osc = "SineOscillator_ctor ieee32 f a"
  obtain y where y: "angle (pulls ieee32 n ?osc) = float32_round y"
    using pulls_rounded [of n ?osc] False by blast
  have g: "rounds_to_grid (round32 ieee32)"
    by (rule rounds_to_grid_ieee32)
  have "0 \<le> angle ?osc" "angle ?osc < TWO_PI ieee32"
    using TWO_PI_bounds(1) [OF g] by (simp_all add: SineOscillator_ctor_def)
  from pulls_angle_range [OF g angleStep_bounds [OF g assms] this]
  have "angle (pulls ieee32 n ?osc) < TWO_PI ieee32"
    by simp
  then have "float32_round y < 13176795 / 2 ^ 21"
    by (simp only: y TWO_PI_ieee32)
  then have "float32_round y \<le> 13176794 / 2 ^ 21"
    by (rule float32_round_gap)
  with below_TWO_PI_below_two_pi have "float32_round y < 2 * pi"
    by linarith
  then show ?thesis
    by (simp only: y)
qed

text \<open>
  C5: for every frequency \<open>f\<close> with \<open>0 < f < r / 2\<close> at the fixed sample rate \<open>r = 44100\<close>, an
  oscillator that starts at phase 0 has its phase angle in \<open>[0, TWO_PI)\<close> after every number
  of \<open>process\<close> calls, where \<open>TWO_PI\<close> is the constant of the code for \<open>2\<pi>\<close>, against which it
  compares and which it subtracts; this holds under every rounding that is monotone and
  exact on the multiples of 1/4 up to \<open>2^18\<close>. On the binary32 machine, where \<open>TWO_PI\<close> is
  slightly above \<open>2\<pi>\<close>, the phase angle is in \<open>[0, 2\<pi>)\<close> as well.
\<close>

theorem phase_angle_in_range:
  assumes "rounds_to_grid (round32 fp)" and "0 < f" and "f < real (unat SAMPLE_RATE) / 2"
  shows "angle (SineOscillator_ctor fp f a) = 0 \<and>
    0 \<le> angle (pulls fp n (SineOscillator_ctor fp f a)) \<and>
    angle (pulls fp n (SineOscillator_ctor fp f a)) < TWO_PI fp \<and>
    0 \<le> angle (pulls ieee32 n (SineOscillator_ctor ieee32 f a)) \<and>
    angle (pulls ieee32 n (SineOscillator_ctor ieee32 f a)) < 2 * pi"
proof -
  have range: "0 \<le> angle (pulls m k (SineOscillator_ctor m f a)) \<and>
      angle (pulls m k (SineOscillator_ctor m f a)) < TWO_PI m"
    if g: "rounds_to_grid (round32 m)" for m k
  proof -
    have "0 < TWO_PI m"
      using TWO_PI_bounds(1) [OF g] by simp
    then have "0 \<le> angle (SineOscillator_ctor m f a)"
      "angle (SineOscillator_ctor m f a) < TWO_PI m"
      by (simp_all add: SineOscillator_ctor_def)
    from pulls_angle_range [OF g angleStep_bounds [OF g assms(2,3)] this]
    show ?thesis .
  qed
  have start: "angle (SineOscillator_ctor fp f a) = 0"
    by (simp add: SineOscillator_ctor_def)
  from start range [OF assms(1), of n] range [OF rounds_to_grid_ieee32, of n]
    pulls_ieee32_below_two_pi [OF assms(2,3), of n a]
  show ?thesis by simp
qed

theorem phase_angle_in_range_witness:
  "rounds_to_grid (round32 ieee32) \<and> (0::real) < 440 \<and> 440 < real (unat SAMPLE_RATE) / 2 \<and>
   0 \<le> angle (pulls ieee32 88200 (SineOscillator_ctor ieee32 440 (1 / 2))) \<and>
   angle (pulls ieee32 88200 (SineOscillator_ctor ieee32 440 (1 / 2))) < TWO_PI ieee32 \<and>
   angle (pulls ieee32 88200 (SineOscillator_ctor ieee32 440 (1 / 2))) < 2 * pi"
proof -
  have f: "(0::real) < 440" "440 < real (unat SAMPLE_RATE) / 2"
    by (simp_all add: SAMPLE_RATE_def)
  from phase_angle_in_range [OF rounds_to_grid_ieee32 f, of "1 / 2" 88200]
    rounds_to_grid_ieee32 f
  show ?thesis by simp
qed

text \<open>
  C6: \<open>process\<close> returns \<open>amplitude * sin(angle)\<close>, in single precision, at the phase held
  before the call, and then advances the phase by \<open>angleStep\<close>, the constructor's
  \<open>TWO_PI * frequency / sampleRate\<close>, with one subtraction of \<open>TWO_PI\<close> when the sum reaches
  it; frequency, amplitude and step are unchanged. It is a total function with no error
  outcome. In exact arithmetic the sample is \<open>amplitude * sin angle\<close> and the step
  \<open>2 * M_PI * frequency / 44100\<close>.
\<close>

theorem process_sample_then_advance:
  "fst (process fp osc) = round32 fp (amplitude osc * sinf fp (angle osc)) \<and>
   angle (snd (process fp osc)) =
     (if TWO_PI fp \<le> round32 fp (angle osc + angleStep osc)
      then round32 fp (round32 fp (angle osc + angleStep osc) - TWO_PI fp)
      else round32 fp (angle osc + angleStep osc)) \<and>
   snd (process fp osc) = osc\<lparr>angle := angle (snd (process fp osc))\<rparr> \<and>
   angleStep (SineOscillator_ctor fp f a) =
     round32 fp (round32 fp (TWO_PI fp * f) / 44100) \<and>
   fst (process exact osc) = amplitude osc * sin (angle osc) \<and>
   angleStep (SineOscillator_ctor exact f a) = 2 * M_PI * f / 44100 \<and>
   angle (snd (process exact osc)) =
     (if 2 * M_PI \<le> angle osc + angleStep osc
      then angle osc + angleStep osc - 2 * M_PI else angle osc + angleStep osc)"
  by (simp add: process_def Let_def SineOscillator_ctor_def SAMPLE_RATE_def exact_def TWO_PI_def)

section \<open>The whole program\<close>

lemma sample_bound:
  assumes g: "rounds_to_grid (round32 fp)" and b: "\<And>x. \<bar>sinf fp x\<bar> \<le> 1"
    and a: "\<bar>amplitude osc\<bar> \<le> 1"
  shows "\<bar>fst (process fp osc)\<bar> \<le> 1"
proof -
  have "\<bar>amplitude osc * sinf fp (angle osc)\<bar> \<le> 1 * 1"
    unfolding abs_mult using a b [of "angle osc"] by (intro mult_mono) simp_all
  then have "- 1 \<le> amplitude osc * sinf fp (angle osc)" "amplitude osc * sinf fp (angle osc) \<le> 1"
    by (simp_all add: abs_le_iff)
  then have "- 1 \<le> round32 fp (amplitude osc * sinf fp (angle osc))"
    "round32 fp (amplitude osc * sinf fp (angle osc)) \<le> 1"
    using round_between [OF g, of "- 4" 4 "amplitude osc * sinf fp (angle osc)"] by simp_all
  then show ?thesis
    by (simp add: process_def Let_def abs_le_iff)
qed

lemma generate_pulls:
  "fst (generate fp n osc w) = pulls fp n osc \<and>
   length (buffer (snd (generate fp n osc w))) = length (buffer w) + n \<and>
   maxAmplitude (snd (generate fp n osc w)) = maxAmplitude w"
proof (induction n arbitrary: osc w)
  case 0
  show ?case by simp
next
  case (Suc n)
  obtain s osc' where p: "process fp osc = (s, osc')"
    by (cases "process fp osc")
  from Suc.IH [of osc' "addSample s w"] show ?case
    by (simp add: p addSample_buffer)
qed

lemma sinf_exact_bound: "\<bar>sinf exact x\<bar> \<le> 1"
  by (simp add: exact_def)

lemma sinf_ieee32_bound: "\<bar>sinf ieee32 x\<bar> \<le> 1"
proof -
  have "- 1 \<le> round32 ieee32 (sin x)" "round32 ieee32 (sin x) \<le> 1"
    using round_between [OF rounds_to_grid_ieee32, of "- 4" 4 "sin x"] by simp_all
  then show ?thesis
    by (simp add: ieee32_def abs_le_iff)
qed

text \<open>
  Every sample that \<open>main\<close> generates converts in the range C++ defines: the samples of
  the program itself never reach the wrapping of the conversion.
\<close>

lemma main_conversions_representable:
  assumes g: "rounds_to_grid (round32 fp)" and b: "\<And>x. \<bar>sinf fp x\<bar> \<le> 1"
  shows "representable_int16
    (fst (process fp (pulls fp k (SineOscillator_ctor fp FREQUENCY AMPLITUDE))) *
     maxAmplitude WavWriter_ctor)"
proof -
  let ?osc = "pulls fp k (SineOscillator_ctor fp FREQUENCY AMPLITUDE)"
  have "\<bar>amplitude ?osc\<bar> \<le> 1"
    by (simp add: pulls_fields SineOscillator_ctor_def AMPLITUDE_def)
  then have "\<bar>fst (process fp ?osc)\<bar> \<le> 1"
    by (rule sample_bound [OF g b])
  from trunc_unit [OF this] show ?thesis
    by (simp add: representable_int16_def maxAmplitude_ctor)
qed

lemma handler_runtime_error:
  "handler (runtime_error what) =
     \<lparr>exit_code = 1, cerr = ''Error: '' @ what @ [CHR 0x0A], audio_wav = None\<rparr>"
  by simp

text \<open>The writer that \<open>main\<close> hands to \<open>writeToFile\<close> holds 88200 samples.\<close>

lemma main_generate:
  "main fp env =
    (case writeToFile env ''audio.wav''
        (snd (generate fp (unat SAMPLE_RATE * DURATION_SECONDS)
          (SineOscillator_ctor fp FREQUENCY AMPLITUDE) WavWriter_ctor)) of
       Inl e \<Rightarrow> handler e
     | Inr out \<Rightarrow> \<lparr>exit_code = 0, cerr = [], audio_wav = Some (contents out)\<rparr>)"
  by (simp add: main_def split: prod.splits)

lemma generate_main_length:
  "length (buffer (snd (generate fp (unat SAMPLE_RATE * DURATION_SECONDS)
      (SineOscillator_ctor fp FREQUENCY AMPLITUDE) WavWriter_ctor))) = 88200"
  using generate_pulls [of fp "unat SAMPLE_RATE * DURATION_SECONDS"
      "SineOscillator_ctor fp FREQUENCY AMPLITUDE" WavWriter_ctor]
  by (simp add: SAMPLE_RATE_def DURATION_SECONDS_def WavWriter_ctor_def)

lemma main_cannot_open:
  assumes "\<not> can_open env ''audio.wav''"
  shows "main fp env = \<lparr>exit_code = 1,
    cerr = ''Error: Could not open file: audio.wav'' @ [CHR 0x0A], audio_wav = None\<rparr>"
  using assms by (simp add: main_generate writeToFile_def)

lemma main_opened:
  assumes "can_open env ''audio.wav''"
  shows "\<exists>w. length (buffer w) = 88200 \<and> main fp env =
      \<lparr>exit_code = 0, cerr = [],
       audio_wav = Some (contents (ofstream_write
         \<lparr>good = True, contents = [], room = capacity env\<rparr>
         (bytes_of_Header (init_header (indeterminate env) w) @
          take (unat (dataSize (init_header (indeterminate env) w))) (buffer_bytes w))))\<rparr>"
  using assms generate_main_length [of fp]
  by (intro exI [of _ "snd (generate fp (unat SAMPLE_RATE * DURATION_SECONDS)
      (SineOscillator_ctor fp FREQUENCY AMPLITUDE) WavWriter_ctor)"])
    (simp add: main_generate writeToFile_opened)

lemma full_disk_write:
  "writeToFile full_disk filename w = Inr \<lparr>good = False, contents = [], room = 0\<rparr>"
  by (simp add: writeToFile_opened full_disk_def ofstream_write_def length_bytes_of_Header)

lemma main_full_disk:
  "main fp full_disk = \<lparr>exit_code = 0, cerr = [], audio_wav = Some []\<rparr>"
  by (simp add: main_generate full_disk_write)

text \<open>
  C7 does not hold of the code: a failed write raises nothing. \<open>writeToFile\<close> throws only
  when the file cannot be opened; \<open>std::ofstream::write\<close> records a failure in the stream
  state, which the code never tests. On a destination that opens and accepts no byte,
  \<open>writeToFile\<close> returns normally with the stream in the error state and nothing written,
  and \<open>main\<close> exits with code 0 and an empty standard error stream. (When the file cannot
  be opened, \<open>main\<close> prints the one line \<open>Error: Could not open file: audio.wav\<close> and exits
  with code 1, as claimed.)
\<close>

theorem write_failure_is_not_reported:
  "writeToFile full_disk ''audio.wav'' WavWriter_ctor =
     Inr \<lparr>good = False, contents = [], room = 0\<rparr> \<and>
   main ieee32 full_disk = \<lparr>exit_code = 0, cerr = [], audio_wav = Some []\<rparr> \<and>
   main ieee32 read_only =
     \<lparr>exit_code = 1, cerr = ''Error: Could not open file: audio.wav'' @ [CHR 0x0A],
      audio_wav = None\<rparr>"
proof -
  have "\<not> can_open read_only ''audio.wav''"
    by (simp add: read_only_def)
  from main_cannot_open [OF this, of ieee32]
  show ?thesis
    by (simp add: full_disk_write main_full_disk)
qed

lemma hd_bytes_of_Header: "hd (bytes_of_Header h) = fst (riffHeader h)"
  by (cases "riffHeader h") (simp add: bytes_of_Header_def bytes_of_char4_def)

lemma drop_bytes_of_Header:
  "drop 4 (bytes_of_Header (h\<lparr>riffHeader := x\<rparr>)) = drop 4 (bytes_of_Header h)"
  by (cases "riffHeader h"; cases x) (simp add: bytes_of_Header_def bytes_of_char4_def)

lemma init_header_riffHeader:
  "init_header (g\<lparr>riffHeader := x\<rparr>) w = (init_header g w)\<lparr>riffHeader := x\<rparr>"
  by (simp add: init_header_def)

text \<open>
  C9 does not hold of the code: the bytes of the header that \<open>writeToFile\<close> never assigns
  are whatever the stack holds, which the program does not control. Two runs of the same
  program on the same machine, on destinations with ample room, one over a zeroed stack
  region and one over a region whose first byte is 1, leave files of the same length that
  differ in byte 0 and agree from byte 4 on.
\<close>

theorem runs_differ_in_unassigned_header:
  "\<exists>a b. main ieee32 roomy = \<lparr>exit_code = 0, cerr = [], audio_wav = Some a\<rparr> \<and>
     main ieee32 (roomy\<lparr>indeterminate := zeroed\<lparr>riffHeader := (1, 0, 0, 0)\<rparr>\<rparr>) =
       \<lparr>exit_code = 0, cerr = [], audio_wav = Some b\<rparr> \<and>
     length a = 176444 \<and> length b = 176444 \<and>
     hd a = 0 \<and> hd b = 1 \<and> a \<noteq> b \<and> drop 4 a = drop 4 b"
proof -
  define w where "w = snd (generate ieee32 (unat SAMPLE_RATE * DURATION_SECONDS)
      (SineOscillator_ctor ieee32 FREQUENCY AMPLITUDE) WavWriter_ctor)"
  have len: "length (buffer w) = 88200"
    unfolding w_def by (rule generate_main_length)
  let ?env' = "roomy\<lparr>indeterminate := zeroed\<lparr>riffHeader := (1, 0, 0, 0)\<rparr>\<rparr>"
  let ?a = "bytes_of_Header (init_header zeroed w) @ buffer_bytes w"
  let ?b = "bytes_of_Header (init_header (zeroed\<lparr>riffHeader := (1, 0, 0, 0)\<rparr>) w) @ buffer_bytes w"
  have wa: "writeToFile roomy ''audio.wav'' w =
      Inr \<lparr>good = True, contents = ?a, room = 2 ^ 40 - 176444\<rparr>"
    using writeToFile_roomy [of roomy "''audio.wav''" w]
    by (simp add: roomy_def len)
  have wb: "writeToFile ?env' ''audio.wav'' w =
      Inr \<lparr>good = True, contents = ?b, room = 2 ^ 40 - 176444\<rparr>"
    using writeToFile_roomy [of ?env' "''audio.wav''" w]
    by (simp add: roomy_def len)
  have ma: "main ieee32 roomy = \<lparr>exit_code = 0, cerr = [], audio_wav = Some ?a\<rparr>"
    using wa by (simp add: main_generate w_def)
  have mb: "main ieee32 ?env' = \<lparr>exit_code = 0, cerr = [], audio_wav = Some ?b\<rparr>"
    using wb by (simp add: main_generate w_def)
  have la: "length ?a = 176444" and lb: "length ?b = 176444"
    by (simp_all add: length_bytes_of_Header length_buffer_bytes len)
  have nonempty: "bytes_of_Header h \<noteq> []" for h
    using length_bytes_of_Header [of h] by auto
  have ha: "hd ?a = 0"
    by (simp add: nonempty hd_bytes_of_Header static_fields_init_header zeroed_def)
  have hb: "hd ?b = 1"
    by (simp add: nonempty hd_bytes_of_Header static_fields_init_header)
  have ne: "?a \<noteq> ?b"
    using ha hb by auto
  have dr: "drop 4 ?a = drop 4 ?b"
    by (simp add: length_bytes_of_Header init_header_riffHeader drop_bytes_of_Header)
  from ma mb la lb ha hb ne dr show ?thesis
    by blast
qed

end
